(* ===== verification/Prelude.thy ===== *)
theory Prelude
  imports Main "HOL-Library.Sublist"
begin

text \<open>
  Shared vocabulary of the development: the JavaScript built-ins that
  \<^verbatim>\<open>src/static/script.js\<close> calls (\<^verbatim>\<open>Array.prototype.indexOf\<close>, string
  truthiness, \<^verbatim>\<open>String.prototype.match\<close> with an unanchored pattern), the
  text encoding of the page (UTF-8 bytes in an Isabelle \<open>string\<close>), and the
  list lemmas the component theories share.  The collections
  \<open>js_simps\<close> and \<open>handler_defs\<close> carry the unfolding facts of the built-ins
  and of the event handlers.
\<close>

named_theorems js_simps "evaluation rules of the JavaScript built-ins"
named_theorems handler_defs "definitions of the event handlers of the controller"

subsection \<open>Text\<close>

text \<open>
  The page's text is a \<open>string\<close> of UTF-8 bytes.  The canonical algorithm
  names are ASCII and are written as literals; the localized labels are
  written as lists of Unicode code points and encoded with \<open>utf8\<close>.
\<close>

fun utf8_char :: "nat \<Rightarrow> string" where
  "utf8_char c =
     (if c < 0x80 then [char_of c]
      else if c < 0x800 then [char_of (0xC0 + c div 0x40), char_of (0x80 + c mod 0x40)]
      else if c < 0x10000 then
        [char_of (0xE0 + c div 0x1000), char_of (0x80 + (c div 0x40) mod 0x40),
         char_of (0x80 + c mod 0x40)]
      else
        [char_of (0xF0 + c div 0x40000), char_of (0x80 + (c div 0x1000) mod 0x40),
         char_of (0x80 + (c div 0x40) mod 0x40), char_of (0x80 + c mod 0x40)])"

definition utf8 :: "nat list \<Rightarrow> string" where
  "utf8 cs = concat (map utf8_char cs)"

definition is_ascii :: "string \<Rightarrow> bool" where
  "is_ascii s \<longleftrightarrow> (\<forall>c \<in> set s. of_char c < (128::nat))"

subsection \<open>JavaScript built-ins\<close>

text \<open>
  \<^verbatim>\<open>xs.indexOf(x)\<close>: the position of the first occurrence, or \<open>-1\<close>.
\<close>

definition index_of :: "'a list \<Rightarrow> 'a \<Rightarrow> int" where
  "index_of xs x = (if x \<in> set xs then int (length (takeWhile (\<lambda>y. y \<noteq> x) xs)) else -1)"

text \<open>
  \<^verbatim>\<open>s.match('image.*')\<close>: the string pattern becomes an unanchored regular
  expression; \<open>.*\<close> also matches the empty string, so the match succeeds
  exactly when \<^verbatim>\<open>image\<close> occurs somewhere in \<open>s\<close>.  \<open>contains\<close> is the
  executable scan; \<open>contains_sublist\<close> below shows it is the library's
  contiguous-sublist relation.
\<close>

fun contains :: "string \<Rightarrow> string \<Rightarrow> bool" where
  "contains pat [] = (pat = [])"
| "contains pat (c # cs) = (prefix pat (c # cs) \<or> contains pat cs)"

text \<open>A string attribute is truthy in JavaScript exactly when it is not empty.\<close>

abbreviation js_truthy :: "string \<Rightarrow> bool" where
  "js_truthy s \<equiv> s \<noteq> []"

text \<open>Removing the \<open>i\<close>-th element of a list of pending callbacks.\<close>

definition remove_nth :: "nat \<Rightarrow> 'a list \<Rightarrow> 'a list" where
  "remove_nth i xs = take i xs @ drop (Suc i) xs"

subsection \<open>Shared lemmas\<close>

lemma index_of_found [js_simps]: "(index_of xs x \<noteq> -1) \<longleftrightarrow> x \<in> set xs"
  by (simp add: index_of_def)

lemma index_of_not_found [simp]: "(index_of xs x = -1) \<longleftrightarrow> x \<notin> set xs"
  by (simp add: index_of_def)

lemma index_of_nth:
  assumes "x \<in> set xs"
  shows "nat (index_of xs x) < length xs \<and> xs ! nat (index_of xs x) = x"
proof -
  have "length (takeWhile (\<lambda>y. y \<noteq> x) xs) \<noteq> length xs"
  proof
    assume "length (takeWhile (\<lambda>y. y \<noteq> x) xs) = length xs"
    then have "takeWhile (\<lambda>y. y \<noteq> x) xs = xs"
      using takeWhile_eq_take [of "\<lambda>y. y \<noteq> x" xs] by simp
    with assms show False by (auto simp add: takeWhile_eq_all_conv)
  qed
  with length_takeWhile_le have lt: "length (takeWhile (\<lambda>y. y \<noteq> x) xs) < length xs"
    by (rule le_neq_implies_less)
  then have "\<not> (xs ! length (takeWhile (\<lambda>y. y \<noteq> x) xs) \<noteq> x)"
    by (rule nth_length_takeWhile)
  with lt assms show ?thesis by (simp add: index_of_def)
qed

lemma contains_sublist [js_simps]: "contains pat s \<longleftrightarrow> sublist pat s"
  by (induction s) (auto simp: sublist_Cons_right)

lemma contains_append_right: "contains pat s \<Longrightarrow> contains pat (p @ s)"
  by (simp add: contains_sublist sublist_append)

lemma utf8_Nil [simp]: "utf8 [] = []"
  by (simp add: utf8_def)

lemma utf8_Cons [simp]: "utf8 (c # cs) = utf8_char c @ utf8 cs"
  by (simp add: utf8_def)

lemma utf8_char_ne [simp]: "utf8_char c \<noteq> []"
  by simp

lemma utf8_char_hd_high:
  assumes "0x80 \<le> c" and "c < 0x110000"
  shows "(128::nat) \<le> of_char (hd (utf8_char c))"
proof -
  consider "c < 0x800" | "0x800 \<le> c" "c < 0x10000" | "0x10000 \<le> c" by linarith
  then show ?thesis
  proof cases
    case 1
    then have "c div 0x40 < 32" by simp
    with assms 1 show ?thesis by simp
  next
    case 2
    then have "c div 0x1000 < 16" by simp
    with 2 show ?thesis by simp
  next
    case 3
    then have "c div 0x40000 < 5" using assms by simp
    with 3 show ?thesis by simp
  qed
qed

lemma hd_utf8_Cons: "hd (utf8 (c # cs)) = hd (utf8_char c)"
  using utf8_char_ne [of c] by (simp del: utf8_char.simps add: hd_append)

text \<open>
  A string that starts with a non-ASCII code point is not ASCII: the key
  fact that keeps the localized labels apart from the canonical names.
\<close>

lemma utf8_high_not_ascii [simp]:
  assumes "0x80 \<le> c" and "c < 0x110000"
  shows "\<not> is_ascii (utf8 (c # cs))"
proof -
  have "utf8 (c # cs) \<noteq> []" by (simp del: utf8_char.simps)
  then have "hd (utf8 (c # cs)) \<in> set (utf8 (c # cs))" by (rule hd_in_set)
  moreover have "(128::nat) \<le> of_char (hd (utf8 (c # cs)))"
    using utf8_char_hd_high [OF assms] by (simp only: hd_utf8_Cons)
  ultimately show ?thesis unfolding is_ascii_def by (meson leD)
qed

lemma remove_nth_length [simp]: "i < length xs \<Longrightarrow> length (remove_nth i xs) = length xs - 1"
  by (simp add: remove_nth_def)

lemma remove_nth_Nil [simp]: "remove_nth i [] = []"
  by (simp add: remove_nth_def)

lemma set_remove_nth: "set (remove_nth i xs) \<subseteq> set xs"
  by (auto simp: remove_nth_def dest: in_set_takeD in_set_dropD)


lemma remove_nth_0 [simp]: "remove_nth 0 xs = tl xs"
  by (simp add: remove_nth_def drop_Suc)

text \<open>An association list whose values are distinct can be read backwards.\<close>

lemma swap_map_of:
  assumes "distinct (map snd xs)" and "(k, v) \<in> set xs"
  shows "map_of (map prod.swap xs) v = Some k"
  using assms by (intro map_of_is_SomeI) (auto simp: comp_def image_iff intro!: bexI [of _ "(k, v)"])

end
