(* ===== verification/Catalog.thy ===== *)
theory Catalog
  imports Prelude
begin

text \<open>
  The algorithm catalog of \<^verbatim>\<open>src/static/script.js\<close> (lines 1--69): the five
  constant arrays of canonical algorithm names and the table
  \<^verbatim>\<open>algorithmLabels\<close> from canonical name to localized display label.  The
  arrays keep their source names and order; the table is an association list
  in source order, looked up as a JavaScript object property.  The lemmas
  show that the arrays are pairwise disjoint and free of duplicates, that
  every catalog name has a label, and that no label is itself a key of the
  table, which is what makes the localization pass idempotent.
\<close>

definition mixedAlgorithms :: "string list" where
  "mixedAlgorithms = [''Negative'', ''Rescaling'', ''Shift&Rescale'', ''Bit Plane Slicing'',
     ''Salt&Pepper noise'']"

definition arithmeticOperations :: "string list" where
  "arithmeticOperations = [''Addition'', ''Substraction'', ''Multiplication'', ''Division'']"

definition bitOperations :: "string list" where
  "bitOperations = [''Bitwise Not'', ''Bitwise And'', ''Bitwise Or'', ''Bitwise Xor'']"

definition convolutions :: "string list" where
  "convolutions = [''Convolution - Averaging'', ''Convolution - Weighted averaging'',
     ''Convolution - Four Neighbour Laplacian'', ''Convolution - Eight Neighbour Laplacian'',
     ''Convolution - Four Neighbour Laplacian Enhancement'',
     ''Convolution - Eight Neighbour Laplacian Enhancement'',
     ''Convolution - Roberts One'', ''Convolution - Roberts Two'',
     ''Convolution - Sobel X'', ''Convolution - Sobel Y'']"

definition transformations :: "string list" where
  "transformations = [''Logarithmic Transformation'', ''Power Law'', ''Random LUT'']"

text \<open>
  The label table.  Each label is the UTF-8 encoding of the code points of
  the source's string literal.
\<close>

definition algorithmLabels :: "(string \<times> string) list" where
  "algorithmLabels = [
     (''Negative'', utf8 [0x8D1F, 0x7247]),
     (''Rescaling'', utf8 [0x91CD, 0x65B0, 0x7F29, 0x653E]),
     (''Shift&Rescale'', utf8 [0x79FB, 0x4F4D, 0x548C, 0x91CD, 0x65B0, 0x7F29, 0x653E]),
     (''Bit Plane Slicing'', utf8 [0x4F4D, 0x5E73, 0x9762, 0x5207, 0x7247]),
     (''Salt&Pepper noise'', utf8 [0x6912, 0x76D0, 0x566A, 0x58F0]),
     (''Addition'', utf8 [0x52A0, 0x6CD5]),
     (''Substraction'', utf8 [0x51CF, 0x6CD5]),
     (''Multiplication'', utf8 [0x4E58, 0x6CD5]),
     (''Division'', utf8 [0x9664, 0x6CD5]),
     (''Bitwise Not'', utf8 [0x6309, 0x4F4D, 0x53D6, 0x53CD]),
     (''Bitwise And'', utf8 [0x6309, 0x4F4D, 0x4E0E]),
     (''Bitwise Or'', utf8 [0x6309, 0x4F4D, 0x6216]),
     (''Bitwise Xor'', utf8 [0x6309, 0x4F4D, 0x5F02, 0x6216]),
     (''Convolution - Averaging'', utf8 [0x5377, 0x79EF, 0x20, 0x2D, 0x20, 0x5E73, 0x5747]),
     (''Convolution - Weighted averaging'',
        utf8 [0x5377, 0x79EF, 0x20, 0x2D, 0x20, 0x52A0, 0x6743, 0x5E73, 0x5747]),
     (''Convolution - Four Neighbour Laplacian'',
        utf8 [0x5377, 0x79EF, 0x20, 0x2D, 0x20, 0x56DB, 0x90BB, 0x57DF, 0x62C9, 0x666E, 0x62C9,
              0x65AF]),
     (''Convolution - Eight Neighbour Laplacian'',
        utf8 [0x5377, 0x79EF, 0x20, 0x2D, 0x20, 0x516B, 0x90BB, 0x57DF, 0x62C9, 0x666E, 0x62C9,
              0x65AF]),
     (''Convolution - Four Neighbour Laplacian Enhancement'',
        utf8 [0x5377, 0x79EF, 0x20, 0x2D, 0x20, 0x56DB, 0x90BB, 0x57DF, 0x62C9, 0x666E, 0x62C9,
              0x65AF, 0x589E, 0x5F3A]),
     (''Convolution - Eight Neighbour Laplacian Enhancement'',
        utf8 [0x5377, 0x79EF, 0x20, 0x2D, 0x20, 0x516B, 0x90BB, 0x57DF, 0x62C9, 0x666E, 0x62C9,
              0x65AF, 0x589E, 0x5F3A]),
     (''Convolution - Roberts One'', utf8 [0x5377, 0x79EF, 0x20, 0x2D, 0x20, 0x7F57, 0x4F2F, 0x8328, 0x4E00]),
     (''Convolution - Roberts Two'', utf8 [0x5377, 0x79EF, 0x20, 0x2D, 0x20, 0x7F57, 0x4F2F, 0x8328, 0x4E8C]),
     (''Convolution - Sobel X'',
        utf8 [0x5377, 0x79EF, 0x20, 0x2D, 0x20, 0x7D22, 0x8D1D, 0x5C14, 0x20, 0x58]),
     (''Convolution - Sobel Y'',
        utf8 [0x5377, 0x79EF, 0x20, 0x2D, 0x20, 0x7D22, 0x8D1D, 0x5C14, 0x20, 0x59]),
     (''Logarithmic Transformation'', utf8 [0x5BF9, 0x6570, 0x53D8, 0x6362]),
     (''Power Law'', utf8 [0x5E42, 0x5F8B, 0x53D8, 0x6362]),
     (''Random LUT'', utf8 [0x968F, 0x673A, 0x20, 0x4C, 0x55, 0x54])]"

text \<open>
  \<^verbatim>\<open>algorithmLabels[text]\<close>: property lookup in the object literal.  The keys
  are distinct (\<open>algorithmLabels_keys\<close>), so the first entry is the only one.
\<close>

definition label_of :: "string \<rightharpoonup> string" where
  "label_of = map_of algorithmLabels"

text \<open>
  The five categories, in the order the arrays are declared, and the array
  each one names.  \<open>all_algorithms\<close> is the order in which
  \<^verbatim>\<open>setupSelectInputField\<close> appends them.
\<close>

datatype category = Mixed | Arithmetic | Bitwise | Convolution | Transformation

fun category_list :: "category \<Rightarrow> string list" where
  "category_list Mixed = mixedAlgorithms"
| "category_list Arithmetic = arithmeticOperations"
| "category_list Bitwise = bitOperations"
| "category_list Convolution = convolutions"
| "category_list Transformation = transformations"

definition categories :: "category list" where
  "categories = [Mixed, Arithmetic, Bitwise, Convolution, Transformation]"

definition all_algorithms :: "string list" where
  "all_algorithms = concat (map category_list categories)"

lemmas catalog_defs = mixedAlgorithms_def arithmeticOperations_def bitOperations_def
  convolutions_def transformations_def

subsection \<open>Facts about the catalog\<close>

lemma all_algorithms_eq:
  "all_algorithms = mixedAlgorithms @ arithmeticOperations @ bitOperations @ convolutions @
     transformations"
  by (simp add: all_algorithms_def categories_def)

lemma all_algorithms_distinct: "distinct all_algorithms"
  by (simp add: all_algorithms_eq catalog_defs)

lemma algorithmLabels_keys: "map fst algorithmLabels = all_algorithms"
  by (simp add: all_algorithms_eq catalog_defs algorithmLabels_def)

lemma set_category_list_subset: "set (category_list c) \<subseteq> set all_algorithms"
  by (cases c) (auto simp: all_algorithms_eq)

lemma category_lists_disjoint:
  "c \<noteq> d \<Longrightarrow> set (category_list c) \<inter> set (category_list d) = {}"
  by (cases c; cases d) (simp_all add: catalog_defs)

lemma all_algorithms_ascii: "\<forall>a \<in> set all_algorithms. is_ascii a"
  by (simp add: all_algorithms_eq catalog_defs is_ascii_def)

lemma labels_not_ascii: "\<forall>l \<in> snd ` set algorithmLabels. \<not> is_ascii l"
  by (simp del: utf8_Cons utf8_char.simps add: algorithmLabels_def)

lemma label_of_dom: "dom label_of = set all_algorithms"
  by (simp add: label_of_def dom_map_of_conv_image_fst algorithmLabels_keys [symmetric])

lemma label_of_not_key: "label_of t = Some l \<Longrightarrow> label_of l = None"
proof -
  assume "label_of t = Some l"
  then have "l \<in> snd ` set algorithmLabels"
    by (auto simp: label_of_def dest: map_of_SomeD intro: rev_image_eqI)
  with labels_not_ascii have "\<not> is_ascii l" by blast
  with all_algorithms_ascii have "l \<notin> set all_algorithms" by blast
  then show "label_of l = None" using label_of_dom by blast
qed


lemma labels_distinct: "distinct (map snd algorithmLabels)"
  by (simp add: algorithmLabels_def)

end
