(* ===== verification/Page.thy ===== *)
theory Page
  imports Prelude
begin

text \<open>
  The part of the HTML page that \<^verbatim>\<open>src/static/script.js\<close> reads and writes,
  as a record: the options of the algorithm select and the index of the
  option it shows, the \<^verbatim>\<open>src\<close> attributes of
  the three image elements, the disabled and visible state of the two
  buttons, the CSS \<^verbatim>\<open>display\<close> of the second-image area, and the two
  user-visible effects the script produces (the \<^verbatim>\<open>alert\<close> messages in order and
  the downloads started by clicking a generated anchor).  An empty \<^verbatim>\<open>src\<close>
  attribute is the empty string.  The theory also holds the two handlers that
  touch nothing else: \<^verbatim>\<open>buttonsRules\<close> (lines 80--92) and \<^verbatim>\<open>saveImage\<close>
  (lines 130--142), and what they do on every branch.
\<close>

record option_elem =
  opt_value :: string
  opt_text :: string

record page =
  options :: "option_elem list"
  selected_index :: nat
  original_src :: string
  original2_src :: string
  result_src :: string
  process_disabled :: bool
  save_disabled :: bool
  save_visible :: bool
  second_display :: string
  alerts :: "string list"
  downloads :: "(string \<times> string) list"

definition alert :: "string \<Rightarrow> 'a page_scheme \<Rightarrow> 'a page_scheme" where
  "alert msg d = d\<lparr>alerts := alerts d @ [msg]\<rparr>"

text \<open>
  \<^verbatim>\<open>buttonsRules\<close>: the process button follows the original image; the save
  button is disabled together with it but never enabled again (line 90 is
  commented out), and is shown once a result image is present.
\<close>

definition buttonsRules :: "'a page_scheme \<Rightarrow> 'a page_scheme" where
  "buttonsRules d =
     (let d1 = (if original_src d = ''''
                then d\<lparr>process_disabled := True, save_disabled := True\<rparr>
                else d\<lparr>process_disabled := False\<rparr>)
      in if result_src d1 \<noteq> '''' then d1\<lparr>save_visible := True\<rparr> else d1)"

text \<open>
  \<^verbatim>\<open>saveImage\<close>: with a non-empty result \<^verbatim>\<open>src\<close>, an anchor with that
  \<^verbatim>\<open>href\<close> and the fixed download name is appended, clicked and removed
  again, which leaves the page unchanged and starts one download; otherwise an
  alert.
\<close>

definition saveImage :: "'a page_scheme \<Rightarrow> 'a page_scheme" where
  "saveImage d =
     (if js_truthy (result_src d)
      then d\<lparr>downloads := downloads d @ [(result_src d, ''resultImage.jpg'')]\<rparr>
      else alert ''No image to save!'' d)"

text \<open>
  The page as served, before the script runs: an empty select, no image
  sources, both buttons enabled, the save button and the second-image area
  hidden, nothing alerted or downloaded yet.
\<close>

definition blank_page :: page where
  "blank_page =
     \<lparr>options = [], selected_index = 0, original_src = '''', original2_src = '''', result_src = '''',
      process_disabled = False, save_disabled = False, save_visible = False,
      second_display = ''none'', alerts = [], downloads = []\<rparr>"

declare alert_def [handler_defs] buttonsRules_def [handler_defs] saveImage_def [handler_defs]

subsection \<open>Behaviour of the two page handlers\<close>

lemma buttonsRules_process_disabled [simp]:
  "process_disabled (buttonsRules d) = (original_src d = '''')"
  by (simp add: buttonsRules_def Let_def)

lemma buttonsRules_save_disabled [simp]:
  "save_disabled (buttonsRules d) = (original_src d = '''' \<or> save_disabled d)"
  by (simp add: buttonsRules_def Let_def)

lemma buttonsRules_save_visible [simp]:
  "save_visible (buttonsRules d) = (save_visible d \<or> result_src d \<noteq> '''')"
  by (simp add: buttonsRules_def Let_def)

lemma buttonsRules_frame [simp]:
  "options (buttonsRules d) = options d"
  "selected_index (buttonsRules d) = selected_index d"
  "original_src (buttonsRules d) = original_src d"
  "original2_src (buttonsRules d) = original2_src d"
  "result_src (buttonsRules d) = result_src d"
  "second_display (buttonsRules d) = second_display d"
  "alerts (buttonsRules d) = alerts d"
  "downloads (buttonsRules d) = downloads d"
  "page.more (buttonsRules d) = page.more d"
  by (simp_all add: buttonsRules_def Let_def)

lemma alert_frame [simp]:
  "alerts (alert m d) = alerts d @ [m]"
  "options (alert m d) = options d"
  "selected_index (alert m d) = selected_index d"
  "original_src (alert m d) = original_src d"
  "original2_src (alert m d) = original2_src d"
  "result_src (alert m d) = result_src d"
  "process_disabled (alert m d) = process_disabled d"
  "save_disabled (alert m d) = save_disabled d"
  "save_visible (alert m d) = save_visible d"
  "second_display (alert m d) = second_display d"
  "downloads (alert m d) = downloads d"
  "page.more (alert m d) = page.more d"
  by (simp_all add: alert_def)

end
