(* ===== verification/Options.thy ===== *)
theory Options
  imports Catalog Page
begin

text \<open>
  The algorithm select of the page: \<^verbatim>\<open>setupSelectInputField\<close> (lines
  94--121) appends one option per catalog name, array by array, with text and
  value both the canonical name; \<^verbatim>\<open>translateAlgorithmOptions\<close> (lines 71--78)
  replaces the text of every option whose text is a key of
  \<^verbatim>\<open>algorithmLabels\<close> by its label and leaves the value alone.  The lemmas
  show what the select holds after both passes, that localization never
  touches a value, and that it is idempotent.
\<close>

text \<open>\<^verbatim>\<open>$("<option>").text(value).val(value)\<close>\<close>

definition new_option :: "string \<Rightarrow> option_elem" where
  "new_option v = \<lparr>opt_value = v, opt_text = v\<rparr>"

text \<open>\<^verbatim>\<open>$.each(list, function(index, value) { ... algorithmSelect.append(option); })\<close>\<close>

definition append_options :: "string list \<Rightarrow> 'a page_scheme \<Rightarrow> 'a page_scheme" where
  "append_options vs d = d\<lparr>options := options d @ map new_option vs\<rparr>"

definition setupSelectInputField :: "'a page_scheme \<Rightarrow> 'a page_scheme" where
  "setupSelectInputField d =
     append_options transformations
      (append_options convolutions
        (append_options bitOperations
          (append_options arithmeticOperations
            (append_options mixedAlgorithms d))))"

text \<open>The body of the \<^verbatim>\<open>$("option").each\<close> callback, for one option.\<close>

definition translate_option :: "option_elem \<Rightarrow> option_elem" where
  "translate_option opt =
     (case label_of (opt_text opt) of
        Some l \<Rightarrow> opt\<lparr>opt_text := l\<rparr>
      | None \<Rightarrow> opt)"

definition translateAlgorithmOptions :: "'a page_scheme \<Rightarrow> 'a page_scheme" where
  "translateAlgorithmOptions d = d\<lparr>options := map translate_option (options d)\<rparr>"

declare setupSelectInputField_def [handler_defs] translateAlgorithmOptions_def [handler_defs]

subsection \<open>Lemmas\<close>

lemma setupSelectInputField_options:
  "options (setupSelectInputField d) = options d @ map new_option all_algorithms"
  by (simp add: setupSelectInputField_def append_options_def all_algorithms_eq)

lemma new_option_sel [simp]: "opt_value (new_option v) = v" "opt_text (new_option v) = v"
  by (simp_all add: new_option_def)

lemma translate_option_value [simp]: "opt_value (translate_option opt) = opt_value opt"
  by (simp add: translate_option_def split: option.split)

lemma translate_option_new_catalog:
  "a \<in> set all_algorithms \<Longrightarrow> translate_option (new_option a) = \<lparr>opt_value = a, opt_text = the (label_of a)\<rparr>"
  using label_of_dom by (auto simp: translate_option_def new_option_def split: option.split)

lemma translate_option_idem [simp]: "translate_option (translate_option opt) = translate_option opt"
  by (auto simp: translate_option_def dest: label_of_not_key split: option.split)

lemma setupSelectInputField_frame [simp]:
  "selected_index (setupSelectInputField d) = selected_index d"
  "original_src (setupSelectInputField d) = original_src d"
  "original2_src (setupSelectInputField d) = original2_src d"
  "result_src (setupSelectInputField d) = result_src d"
  "process_disabled (setupSelectInputField d) = process_disabled d"
  "save_disabled (setupSelectInputField d) = save_disabled d"
  "save_visible (setupSelectInputField d) = save_visible d"
  "second_display (setupSelectInputField d) = second_display d"
  "alerts (setupSelectInputField d) = alerts d"
  "downloads (setupSelectInputField d) = downloads d"
  "page.more (setupSelectInputField d) = page.more d"
  by (simp_all add: setupSelectInputField_def append_options_def)

lemma translateAlgorithmOptions_frame [simp]:
  "selected_index (translateAlgorithmOptions d) = selected_index d"
  "original_src (translateAlgorithmOptions d) = original_src d"
  "original2_src (translateAlgorithmOptions d) = original2_src d"
  "result_src (translateAlgorithmOptions d) = result_src d"
  "process_disabled (translateAlgorithmOptions d) = process_disabled d"
  "save_disabled (translateAlgorithmOptions d) = save_disabled d"
  "save_visible (translateAlgorithmOptions d) = save_visible d"
  "second_display (translateAlgorithmOptions d) = second_display d"
  "alerts (translateAlgorithmOptions d) = alerts d"
  "downloads (translateAlgorithmOptions d) = downloads d"
  "page.more (translateAlgorithmOptions d) = page.more d"
  by (simp_all add: translateAlgorithmOptions_def)

lemma translateAlgorithmOptions_options [simp]:
  "options (translateAlgorithmOptions d) = map translate_option (options d)"
  by (simp add: translateAlgorithmOptions_def)

text \<open>
  C35: After setupSelectInputField and translateAlgorithmOptions the select holds the
  page's own options (localized) followed by one option per catalog name, in catalog
  order, whose value is the canonical name and whose text is its label.
\<close>

theorem select_after_setup:
  "options (translateAlgorithmOptions (setupSelectInputField d)) =
     map translate_option (options d) @
     map (\<lambda>a. \<lparr>opt_value = a, opt_text = the (label_of a)\<rparr>) all_algorithms"
  by (simp add: setupSelectInputField_options translate_option_new_catalog)

text \<open>
  C36: Under the abstraction that keeps only the option values, setupSelectInputField
  refines appending the catalog names in declaration order, and
  translateAlgorithmOptions refines the identity: localization never touches a value.
\<close>

theorem select_values_refinement:
  "map opt_value (options (setupSelectInputField d)) = map opt_value (options d) @ all_algorithms \<and>
   map opt_value (options (translateAlgorithmOptions d)) = map opt_value (options d)"
  by (simp add: setupSelectInputField_options comp_def)

text \<open>
  C37: Running translateAlgorithmOptions twice gives the same page as running it once,
  because no label is itself a key of algorithmLabels.
\<close>

theorem translate_idempotent:
  "translateAlgorithmOptions (translateAlgorithmOptions d) = translateAlgorithmOptions d"
  by (simp add: translateAlgorithmOptions_def comp_def)


text \<open>
  C38: The label a catalog option displays determines the value it submits: looking the
  label up backwards in algorithmLabels gives back the option's value, because no two
  names share a label.
\<close>

theorem label_roundtrip:
  assumes "a \<in> set all_algorithms"
  shows "map_of (map prod.swap algorithmLabels) (opt_text (translate_option (new_option a))) =
    Some (opt_value (translate_option (new_option a)))"
proof -
  obtain l where l: "label_of a = Some l" using assms label_of_dom by blast
  then have "(a, l) \<in> set algorithmLabels" by (simp add: label_of_def map_of_SomeD)
  then show ?thesis using l swap_map_of [OF labels_distinct] by (simp add: translate_option_def new_option_def)
qed

lemma label_roundtrip_witness:
  "''Power Law'' \<in> set all_algorithms \<and>
   map_of (map prod.swap algorithmLabels) (opt_text (translate_option (new_option ''Power Law''))) = Some ''Power Law''"
proof -
  have m: "''Power Law'' \<in> set all_algorithms" by (simp add: all_algorithms_eq catalog_defs)
  show ?thesis using m label_roundtrip [OF m] by simp
qed

end
