(* ===== verification/Numeric.thy ===== *)
theory Numeric
  imports Prelude
begin

text \<open>
  The check \<^verbatim>\<open>$.isNumeric(x)\<close> that guards every prompt of the controller
  (lines 200, 209, 218, 252).  It is jQuery's, not the repository's:
  \<^verbatim>\<open>(typeof x === "number" || typeof x === "string") && !isNaN(x - parseFloat(x))\<close>.
  \<^verbatim>\<open>prompt\<close> answers a string or \<^verbatim>\<open>null\<close> (cancel), modelled as
  \<open>string option\<close>.  For a string the subtraction is \<open>NaN\<close> unless the string,
  trimmed, is a numeric literal of ECMAScript's \<^verbatim>\<open>StringNumericLiteral\<close>
  grammar: a signed decimal literal (then \<^verbatim>\<open>parseFloat\<close> reads the same value,
  and the result is \<open>NaN\<close> only when both sides overflow to the same
  infinity) or an unsigned \<^verbatim>\<open>0x\<close>/\<^verbatim>\<open>0o\<close>/\<^verbatim>\<open>0b\<close> literal (then
  \<^verbatim>\<open>parseFloat\<close> reads the leading \<open>0\<close>).  The empty string gives
  \<open>0 - NaN\<close>, and \<^verbatim>\<open>Infinity\<close> gives \<open>Infinity - Infinity\<close>: both are
  rejected.  White space is ECMAScript's: the ASCII white space, the
  no-break space, the Unicode space separators, the line and paragraph
  separators and the byte order mark, matched as UTF-8 byte sequences and
  removed one at a time from both ends (\<open>trim_start\<close>, \<open>trim_end\<close>,
  whose termination is proved with the length of the text as measure).  The
  lemmas give the round trip from printed integers back through the parser,
  that white space around a number is removed exactly, and which integers the
  check accepts.
\<close>

definition is_digit :: "char \<Rightarrow> bool" where
  "is_digit c \<longleftrightarrow> 48 \<le> (of_char c :: nat) \<and> (of_char c :: nat) \<le> 57"

definition digit_val :: "char \<Rightarrow> nat" where
  "digit_val c = of_char c - 48"

definition digits_val :: "string \<Rightarrow> nat" where
  "digits_val ds = foldl (\<lambda>n c. 10 * n + digit_val c) 0 ds"

text \<open>
  The white space that \<^verbatim>\<open>Number(x)\<close> trims (ECMAScript
  \<^verbatim>\<open>StrWhiteSpaceChar\<close>): the ASCII tab, line feed, vertical tab, form
  feed, carriage return and space, the no-break space, the space separators of
  Unicode category Zs, the line and paragraph separators and the byte order
  mark, each as its UTF-8 byte sequence.
\<close>

definition js_space_points :: "nat list" where
  "js_space_points = [0x9, 0xA, 0xB, 0xC, 0xD, 0x20, 0xA0, 0x1680] @ [0x2000..<0x200B] @
     [0x2028, 0x2029, 0x202F, 0x205F, 0x3000, 0xFEFF]"

definition js_space_seqs :: "string list" where
  "js_space_seqs = map utf8_char js_space_points"

text \<open>
  Trimming removes one white-space sequence at a time from the front, then
  from the back, until none is left; each round removes at least one byte.
\<close>

function trim_start :: "string \<Rightarrow> string" where
  "trim_start s =
     (case find (\<lambda>w. prefix w s) js_space_seqs of
        Some w \<Rightarrow> trim_start (drop (length w) s)
      | None \<Rightarrow> s)"
  by pat_completeness auto

termination trim_start
  by (relation "measure length") (auto simp: js_space_seqs_def find_Some_iff dest!: prefix_length_le)

declare trim_start.simps [simp del]

function trim_end :: "string \<Rightarrow> string" where
  "trim_end s =
     (case find (\<lambda>w. suffix w s) js_space_seqs of
        Some w \<Rightarrow> trim_end (take (length s - length w) s)
      | None \<Rightarrow> s)"
  by pat_completeness auto

termination trim_end
  by (relation "measure length") (auto simp: js_space_seqs_def find_Some_iff dest!: suffix_length_le)

declare trim_end.simps [simp del]

definition js_trim :: "string \<Rightarrow> string" where
  "js_trim s = trim_end (trim_start s)"

text \<open>The exponent part after \<^verbatim>\<open>e\<close> or \<^verbatim>\<open>E\<close>: an optional sign and digits, to the end.\<close>

definition parse_exponent :: "string \<Rightarrow> int option" where
  "parse_exponent s =
     (let (sg, r) = (case s of
                       c # r \<Rightarrow> if c = CHR ''+'' then (1, r) else if c = CHR ''-'' then (-1, r) else (1, s)
                     | [] \<Rightarrow> (1, s))
      in if r \<noteq> [] \<and> (\<forall>c \<in> set r. is_digit c) then Some (sg * int (digits_val r)) else None)"

text \<open>
  An unsigned decimal literal, as mantissa and decimal exponent:
  \<open>ip.fp e x\<close> is \<open>(ip fp) * 10 ^ (x - length fp)\<close>.  At least one digit
  before or after the point.
\<close>

definition parse_unsigned :: "string \<Rightarrow> (nat \<times> int) option" where
  "parse_unsigned s =
     (let ip = takeWhile is_digit s; r1 = dropWhile is_digit s;
          (fp, r2) = (case r1 of
                        c # r \<Rightarrow> if c = CHR ''.'' then (takeWhile is_digit r, dropWhile is_digit r) else ([], r1)
                      | [] \<Rightarrow> ([], r1));
          ex = (case r2 of
                  [] \<Rightarrow> Some 0
                | c # r \<Rightarrow> if c = CHR ''e'' \<or> c = CHR ''E'' then parse_exponent r else None)
      in if ip = [] \<and> fp = [] then None
         else map_option (\<lambda>x. (digits_val (ip @ fp), x - int (length fp))) ex)"

definition parse_decimal :: "string \<Rightarrow> (int \<times> int) option" where
  "parse_decimal s =
     (case s of
        c # r \<Rightarrow>
          if c = CHR ''+'' then map_option (\<lambda>(m, x). (int m, x)) (parse_unsigned r)
          else if c = CHR ''-'' then map_option (\<lambda>(m, x). (- int m, x)) (parse_unsigned r)
          else map_option (\<lambda>(m, x). (int m, x)) (parse_unsigned s)
      | [] \<Rightarrow> None)"

definition hex_digit :: "char \<Rightarrow> bool" where
  "hex_digit c \<longleftrightarrow> is_digit c \<or> (of_char c :: nat) \<in> {65..70} \<or> (of_char c :: nat) \<in> {97..102}"

definition parse_nondecimal :: "string \<Rightarrow> bool" where
  "parse_nondecimal s =
     (case s of
        z # k # ds \<Rightarrow>
          z = CHR ''0'' \<and> ds \<noteq> [] \<and>
          ((k \<in> {CHR ''x'', CHR ''X''} \<and> (\<forall>c \<in> set ds. hex_digit c)) \<or>
           (k \<in> {CHR ''o'', CHR ''O''} \<and> (\<forall>c \<in> set ds. (of_char c :: nat) \<in> {48..55})) \<or>
           (k \<in> {CHR ''b'', CHR ''B''} \<and> (\<forall>c \<in> set ds. (of_char c :: nat) \<in> {48, 49})))
      | _ \<Rightarrow> False)"

text \<open>
  A decimal value rounds to an infinite double exactly when its magnitude is
  at least \<open>2 ^ 1024 - 2 ^ 970\<close> (half an ulp above the largest double).
\<close>

definition double_overflows :: "int \<Rightarrow> int \<Rightarrow> bool" where
  "double_overflows m x =
     (if 0 \<le> x then (2 ^ 1024 - 2 ^ 970 :: int) \<le> \<bar>m\<bar> * 10 ^ nat x
      else (2 ^ 1024 - 2 ^ 970) * 10 ^ nat (- x) \<le> \<bar>m\<bar>)"

definition isNumeric :: "string option \<Rightarrow> bool" where
  "isNumeric v =
     (case v of
        None \<Rightarrow> False
      | Some s \<Rightarrow>
          (let t = js_trim s in
           case parse_decimal t of
             Some (m, x) \<Rightarrow> \<not> double_overflows m x
           | None \<Rightarrow> parse_nondecimal t))"

subsection \<open>Printing integers\<close>

text \<open>
  The decimal text of an integer, as \<^verbatim>\<open>String(n)\<close> prints it for a safe
  integer: the digits, with a leading \<^verbatim>\<open>-\<close> for a negative value.
\<close>

fun show_nat :: "nat \<Rightarrow> string" where
  "show_nat n = (if n < 10 then [char_of (48 + n)] else show_nat (n div 10) @ [char_of (48 + n mod 10)])"

definition show_int :: "int \<Rightarrow> string" where
  "show_int i = (if i < 0 then CHR ''-'' # show_nat (nat (- i)) else show_nat (nat i))"

declare show_nat.simps [simp del]

subsection \<open>Lemmas\<close>

lemma isNumeric_None [simp]: "\<not> isNumeric None"
  by (simp add: isNumeric_def)

lemma digit_char [simp]: "n < 10 \<Longrightarrow> is_digit (char_of (48 + n)) \<and> digit_val (char_of (48 + n)) = n"
  by (simp add: is_digit_def digit_val_def)

lemma digits_val_snoc [simp]: "digits_val (ds @ [c]) = 10 * digits_val ds + digit_val c"
  by (simp add: digits_val_def)

lemma show_nat_digits: "show_nat n \<noteq> [] \<and> (\<forall>c \<in> set (show_nat n). is_digit c) \<and> digits_val (show_nat n) = n"
proof (induction n rule: show_nat.induct)
  case (1 n)
  show ?case
  proof (cases "n < 10")
    case True
    then show ?thesis by (simp add: show_nat.simps [of n] digits_val_def)
  next
    case False
    with "1.IH" have ih: "show_nat (n div 10) \<noteq> [] \<and> (\<forall>c \<in> set (show_nat (n div 10)). is_digit c) \<and>
        digits_val (show_nat (n div 10)) = n div 10" by simp
    have "n mod 10 < 10" by simp
    with False ih show ?thesis by (simp add: show_nat.simps [of n])
  qed
qed

lemma parse_unsigned_digits:
  assumes "ds \<noteq> []" and "\<forall>c \<in> set ds. is_digit c"
  shows "parse_unsigned ds = Some (digits_val ds, 0)"
proof -
  have tw: "takeWhile is_digit ds = ds" and dw: "dropWhile is_digit ds = []"
    using assms(2) by (simp_all add: takeWhile_eq_all_conv dropWhile_eq_Nil_conv)
  show ?thesis using assms(1) unfolding parse_unsigned_def Let_def tw dw by simp
qed

lemma show_nat_hd: "hd (show_nat n) \<noteq> CHR ''+'' \<and> hd (show_nat n) \<noteq> CHR ''-''"
proof -
  have "show_nat n \<noteq> []" and "is_digit (hd (show_nat n))"
    using show_nat_digits [of n] by auto
  then show ?thesis by (auto simp: is_digit_def)
qed

text \<open>Printing an integer and parsing the text back gives the integer.\<close>

theorem parse_show_int: "parse_decimal (show_int i) = Some (i, 0)"
proof (cases "i < 0")
  case True
  have "parse_unsigned (show_nat (nat (- i))) = Some (nat (- i), 0)"
    using show_nat_digits [of "nat (- i)"] parse_unsigned_digits by metis
  with True show ?thesis by (simp add: show_int_def parse_decimal_def)
next
  case False
  obtain c cs where cs: "show_nat (nat i) = c # cs"
    using show_nat_digits [of "nat i"] by (cases "show_nat (nat i)") auto
  have "parse_unsigned (show_nat (nat i)) = Some (nat i, 0)"
    using show_nat_digits [of "nat i"] parse_unsigned_digits by metis
  moreover have "c \<noteq> CHR ''+'' \<and> c \<noteq> CHR ''-''" using show_nat_hd [of "nat i"] cs by simp
  ultimately show ?thesis using False cs by (simp add: show_int_def parse_decimal_def)
qed

subsection \<open>Trimming\<close>

lemma js_space_seqs_ne: "w \<in> set js_space_seqs \<Longrightarrow> w \<noteq> []"
  unfolding js_space_seqs_def by (auto simp del: utf8_char.simps)

text \<open>The sequences as bytes, for evaluation.\<close>

lemma js_space_seqs_code [code]:
  "js_space_seqs = [[CHR 0x09], [CHR 0x0A], [CHR 0x0B], [CHR 0x0C], [CHR 0x0D], [CHR 0x20],
     [CHR 0xC2, CHR 0xA0], [CHR 0xE1, CHR 0x9A, CHR 0x80],
     [CHR 0xE2, CHR 0x80, CHR 0x80], [CHR 0xE2, CHR 0x80, CHR 0x81], [CHR 0xE2, CHR 0x80, CHR 0x82],
     [CHR 0xE2, CHR 0x80, CHR 0x83], [CHR 0xE2, CHR 0x80, CHR 0x84], [CHR 0xE2, CHR 0x80, CHR 0x85],
     [CHR 0xE2, CHR 0x80, CHR 0x86], [CHR 0xE2, CHR 0x80, CHR 0x87], [CHR 0xE2, CHR 0x80, CHR 0x88],
     [CHR 0xE2, CHR 0x80, CHR 0x89], [CHR 0xE2, CHR 0x80, CHR 0x8A],
     [CHR 0xE2, CHR 0x80, CHR 0xA8], [CHR 0xE2, CHR 0x80, CHR 0xA9], [CHR 0xE2, CHR 0x80, CHR 0xAF],
     [CHR 0xE2, CHR 0x81, CHR 0x9F], [CHR 0xE3, CHR 0x80, CHR 0x80], [CHR 0xEF, CHR 0xBB, CHR 0xBF]]"
  by (simp add: js_space_seqs_def js_space_points_def char_of_def bit_0)

text \<open>No white-space sequence is a prefix or a suffix of another one.\<close>

lemma js_space_seqs_free:
  "\<forall>v \<in> set js_space_seqs. \<forall>w \<in> set js_space_seqs. (prefix v w \<or> suffix v w) \<longrightarrow> v = w"
  by (simp add: js_space_seqs_def js_space_points_def suffix_to_prefix)

lemma js_space_prefix_free: "v \<in> set js_space_seqs \<Longrightarrow> w \<in> set js_space_seqs \<Longrightarrow> prefix v w \<Longrightarrow> v = w"
  using js_space_seqs_free by blast

lemma js_space_suffix_free: "v \<in> set js_space_seqs \<Longrightarrow> w \<in> set js_space_seqs \<Longrightarrow> suffix v w \<Longrightarrow> v = w"
  using js_space_seqs_free by blast

text \<open>White space never starts or ends with a digit or a minus sign (byte 45).\<close>

lemma js_space_ends:
  "\<forall>w \<in> set js_space_seqs. \<not> is_digit (hd w) \<and> (of_char (hd w) :: nat) \<noteq> 45 \<and>
     \<not> is_digit (last w) \<and> (of_char (last w) :: nat) \<noteq> 45"
  by (simp add: js_space_seqs_def js_space_points_def is_digit_def)

lemma find_unique:
  assumes "w \<in> set xs" and "P w" and "\<forall>v \<in> set xs. P v \<longrightarrow> v = w"
  shows "find P xs = Some w"
  using assms
proof (induction xs)
  case Nil
  then show ?case by simp
next
  case (Cons x xs)
  show ?case
  proof (cases "P x")
    case True
    then have "x = w" using Cons.prems(3) by (meson list.set_intros(1))
    with True show ?thesis by simp
  next
    case False
    have "w \<in> set xs" using Cons.prems(1,2) False by auto
    moreover have "\<forall>v \<in> set xs. P v \<longrightarrow> v = w" using Cons.prems(3) by (meson list.set_intros(2))
    ultimately have "find P xs = Some w" using Cons.IH Cons.prems(2) by blast
    with False show ?thesis by simp
  qed
qed

lemma trim_start_space:
  assumes "w \<in> set js_space_seqs"
  shows "trim_start (w @ s) = trim_start s"
proof -
  have "find (\<lambda>v. prefix v (w @ s)) js_space_seqs = Some w"
  proof (rule find_unique [OF assms])
    show "\<forall>v \<in> set js_space_seqs. prefix v (w @ s) \<longrightarrow> v = w"
    proof (intro ballI impI)
      fix v assume v: "v \<in> set js_space_seqs" "prefix v (w @ s)"
      have "prefix v w \<or> prefix w v" using prefix_same_cases [OF v(2), of w] by simp
      then show "v = w" using js_space_prefix_free [OF v(1) assms] js_space_prefix_free [OF assms v(1)] by auto
    qed
  qed simp
  then show ?thesis by (subst trim_start.simps) simp
qed

lemma trim_start_spaces: "set ws \<subseteq> set js_space_seqs \<Longrightarrow> trim_start (concat ws @ s) = trim_start s"
  by (induction ws) (simp_all add: trim_start_space)

lemma trim_start_stop:
  assumes "s \<noteq> []" and "\<forall>w \<in> set js_space_seqs. hd w \<noteq> hd s"
  shows "trim_start s = s"
proof -
  have "\<forall>w \<in> set js_space_seqs. \<not> prefix w s"
    using assms js_space_seqs_ne by (metis hd_append2 prefix_def)
  then have "find (\<lambda>w. prefix w s) js_space_seqs = None" by (simp add: find_None_iff)
  then show ?thesis by (subst trim_start.simps) simp
qed

lemma trim_end_space:
  assumes "w \<in> set js_space_seqs"
  shows "trim_end (s @ w) = trim_end s"
proof -
  have "find (\<lambda>v. suffix v (s @ w)) js_space_seqs = Some w"
  proof (rule find_unique [OF assms])
    show "\<forall>v \<in> set js_space_seqs. suffix v (s @ w) \<longrightarrow> v = w"
    proof (intro ballI impI)
      fix v assume v: "v \<in> set js_space_seqs" "suffix v (s @ w)"
      have "suffix w (s @ w)" by (simp add: suffix_def)
      then have "suffix v w \<or> suffix w v" by (rule suffix_same_cases [OF v(2)])
      then show "v = w" using js_space_suffix_free [OF v(1) assms] js_space_suffix_free [OF assms v(1)] by auto
    qed
  qed (simp add: suffix_def)
  then show ?thesis by (subst trim_end.simps) simp
qed

lemma trim_end_spaces: "set ws \<subseteq> set js_space_seqs \<Longrightarrow> trim_end (s @ concat ws) = trim_end s"
proof (induction ws arbitrary: s rule: rev_induct)
  case (snoc w ws)
  then show ?case using trim_end_space [of w "s @ concat ws"] by simp
qed simp

lemma trim_end_stop:
  assumes "s \<noteq> []" and "\<forall>w \<in> set js_space_seqs. last w \<noteq> last s"
  shows "trim_end s = s"
proof -
  have "\<forall>w \<in> set js_space_seqs. \<not> suffix w s"
    using assms js_space_seqs_ne by (metis last_appendR suffix_def)
  then have "find (\<lambda>w. suffix w s) js_space_seqs = None" by (simp add: find_None_iff)
  then show ?thesis by (subst trim_end.simps) simp
qed

text \<open>White space around a text that neither starts nor ends with white space is removed exactly.\<close>

lemma js_trim_pad:
  assumes "set ws \<subseteq> set js_space_seqs" and "set ws' \<subseteq> set js_space_seqs" and "s \<noteq> []"
    and "\<forall>w \<in> set js_space_seqs. hd w \<noteq> hd s \<and> last w \<noteq> last s"
  shows "js_trim (concat ws @ s @ concat ws') = s"
proof -
  have "trim_start (concat ws @ s @ concat ws') = s @ concat ws'"
    using assms trim_start_spaces [OF assms(1)] trim_start_stop [of "s @ concat ws'"] by simp
  then show ?thesis
    using assms trim_end_spaces [OF assms(2), of s] trim_end_stop [of s] by (simp add: js_trim_def)
qed

lemma show_int_chars: "show_int i \<noteq> [] \<and> (\<forall>c \<in> set (show_int i). is_digit c \<or> (of_char c :: nat) = 45)"
  using show_nat_digits by (auto simp: show_int_def)

lemma show_int_ends: "\<forall>w \<in> set js_space_seqs. hd w \<noteq> hd (show_int i) \<and> last w \<noteq> last (show_int i)"
proof -
  have "hd (show_int i) \<in> set (show_int i)" "last (show_int i) \<in> set (show_int i)"
    using show_int_chars [of i] by simp_all
  then show ?thesis using show_int_chars [of i] js_space_ends by fastforce
qed

lemma js_trim_show_int: "js_trim (concat ws @ show_int i @ concat ws') = show_int i"
  if "set ws \<subseteq> set js_space_seqs" and "set ws' \<subseteq> set js_space_seqs"
  using js_trim_pad [OF that] show_int_chars show_int_ends by blast

text \<open>The check accepts the decimal text of every integer below the overflow bound.\<close>

theorem isNumeric_show_int:
  "\<bar>i\<bar> < 2 ^ 1024 - 2 ^ 970 \<Longrightarrow> isNumeric (Some (show_int i))"
  using js_trim_show_int [of "[]" "[]" i] by (simp add: isNumeric_def parse_show_int double_overflows_def)

text \<open>
  The check accepts the decimal text of an integer exactly below the overflow
  bound, with any white space around it.
\<close>

lemma isNumeric_show_int_pad:
  assumes "set ws \<subseteq> set js_space_seqs" and "set ws' \<subseteq> set js_space_seqs"
  shows "isNumeric (Some (concat ws @ show_int i @ concat ws')) \<longleftrightarrow> \<bar>i\<bar> < 2 ^ 1024 - 2 ^ 970"
  using js_trim_show_int [OF assms, of i]
  by (simp add: isNumeric_def parse_show_int double_overflows_def not_le)

lemma isNumeric_show_int_iff: "isNumeric (Some (show_int i)) \<longleftrightarrow> \<bar>i\<bar> < 2 ^ 1024 - 2 ^ 970"
  using isNumeric_show_int_pad [of "[]" "[]" i] by simp


end
