(* ===== verification/Controller.thy ===== *)
theory Controller
  imports Options Numeric
begin

text \<open>
  The form controller: the \<^verbatim>\<open>$(document).ready\<close> closure of
  \<^verbatim>\<open>src/static/script.js\<close> (lines 123--308).  Its five closure variables
  (\<^verbatim>\<open>formData\<close>, \<^verbatim>\<open>algorithmSelected\<close>, \<^verbatim>\<open>file\<close> (named \<open>file0\<close>, as
  \<open>file\<close> is a keyword), \<^verbatim>\<open>file1\<close>,
  \<^verbatim>\<open>urlApiCall\<close>) extend the page record; two more fields hold what the
  browser owes the script: the \<^verbatim>\<open>FileReader\<close> loads started and not yet
  finished, and the \<^verbatim>\<open>$.ajax\<close> requests sent and not yet answered.  JavaScript's
  \<^verbatim>\<open>undefined\<close> is \<open>None\<close>.  Every handler is one definition over this state,
  with the source's guards and early returns; \<open>step\<close> dispatches the events
  the page can receive.  A \<^verbatim>\<open>return\<close> inside a \<^verbatim>\<open>process...\<close> helper leaves
  only that helper: it is the \<open>Inl\<close> branch of a sum, and the click handler
  carries on after it, as the source does.
\<close>

subsection \<open>Data\<close>

text \<open>A browser \<^verbatim>\<open>File\<close>: its name, its declared MIME type and its contents in base64.\<close>

record js_file =
  file_name :: string
  file_type :: string
  file_b64 :: string

text \<open>
  A \<^verbatim>\<open>FormData\<close> entry value: \<^verbatim>\<open>append\<close> keeps a \<^verbatim>\<open>File\<close> as it is and turns
  any other value into a string (\<^verbatim>\<open>undefined\<close> into \<^verbatim>\<open>"undefined"\<close>).
\<close>

datatype form_value = FStr string | FFile js_file

type_synonym form_data = "(string \<times> form_value) list"

record request =
  req_url :: "string option"
  req_data :: form_data

datatype reader_target = FirstPreview | SecondPreview

record state = page +
  formData :: form_data
  algorithmSelected :: "string option"
  file0 :: "js_file option"
  file1 :: "js_file option"
  urlApiCall :: "string option"
  readers :: "(reader_target \<times> js_file) list"
  requests :: "request list"

text \<open>The user's answers to the prompts of one click, in order; \<open>None\<close> is Cancel.\<close>

type_synonym answers = "string option list"

subsection \<open>JavaScript values\<close>

definition str_value :: "string option \<Rightarrow> form_value" where
  "str_value v = FStr (case v of Some t \<Rightarrow> t | None \<Rightarrow> ''undefined'')"

definition file_value :: "js_file option \<Rightarrow> form_value" where
  "file_value v = (case v of Some f \<Rightarrow> FFile f | None \<Rightarrow> FStr ''undefined'')"

text \<open>\<^verbatim>\<open>list.indexOf(algorithmSelected)\<close>; \<^verbatim>\<open>undefined\<close> is in no list of strings.\<close>

definition index_of_opt :: "string list \<Rightarrow> string option \<Rightarrow> int" where
  "index_of_opt xs v = (case v of Some a \<Rightarrow> index_of xs a | None \<Rightarrow> -1)"

definition form_append :: "string \<Rightarrow> form_value \<Rightarrow> state \<Rightarrow> state" where
  "form_append k v s = s\<lparr>formData := formData s @ [(k, v)]\<rparr>"

definition prompt :: "answers \<Rightarrow> string option \<times> answers" where
  "prompt as = (case as of [] \<Rightarrow> (None, []) | a # r \<Rightarrow> (a, r))"

text \<open>
  The body of a helper runs to its end (\<open>Inr\<close>) or returns early (\<open>Inl\<close>);
  either way control goes back to the caller with the state reached.
\<close>

type_synonym flow = "(answers \<times> state) + (answers \<times> state)"

definition continue_with :: "flow \<Rightarrow> (answers \<Rightarrow> state \<Rightarrow> flow) \<Rightarrow> flow" where
  "continue_with r f = (case r of Inl x \<Rightarrow> Inl x | Inr (as, s) \<Rightarrow> f as s)"

definition finish :: "flow \<Rightarrow> answers \<times> state" where
  "finish r = (case r of Inl x \<Rightarrow> x | Inr x \<Rightarrow> x)"

text \<open>
  One prompt of the source: ask, and on a non-numeric answer alert and return;
  otherwise append the answer under its field name.
\<close>

definition ask_number :: "string \<Rightarrow> string \<Rightarrow> answers \<Rightarrow> state \<Rightarrow> flow" where
  "ask_number fld msg as s =
     (let (v, as') = prompt as in
      if \<not> isNumeric v then Inl (as', alert msg s)
      else Inr (as', form_append fld (FStr (the v)) s))"

abbreviation endpoint_base :: string where
  "endpoint_base \<equiv> ''http://localhost:8080/imageProcessing/process''"

subsection \<open>Parameter collection per category\<close>

definition processMixedAlgorithms :: "answers \<Rightarrow> state \<Rightarrow> answers \<times> state" where
  "processMixedAlgorithms as0 s0 = finish
     (continue_with
       (continue_with
         (continue_with
           (if algorithmSelected s0 = Some ''Rescaling'' \<or> algorithmSelected s0 = Some ''Shift&Rescale''
            then ask_number ''scalingFactor'' ''Insert a number for the scaling factor!'' as0 s0
            else Inr (as0, s0))
           (\<lambda>as s. if algorithmSelected s = Some ''Shift&Rescale''
                   then ask_number ''shiftingValue'' ''Insert a number for the shifting value!'' as s
                   else Inr (as, s)))
         (\<lambda>as s. if algorithmSelected s = Some ''Bit Plane Slicing''
                 then ask_number ''nBit'' ''Insert a number!'' as s
                 else Inr (as, s)))
       (\<lambda>as s. Inr (as, s\<lparr>urlApiCall := Some endpoint_base\<rparr>)))"

definition processArithmeticAlgorithms :: "answers \<Rightarrow> state \<Rightarrow> answers \<times> state" where
  "processArithmeticAlgorithms as s =
     (as, (form_append ''secondImage'' (file_value (file1 s)) s)
            \<lparr>urlApiCall := Some (endpoint_base @ ''/arithmeticOperations'')\<rparr>)"

definition processBitOperationsAlgorithms :: "answers \<Rightarrow> state \<Rightarrow> answers \<times> state" where
  "processBitOperationsAlgorithms as s =
     (let s1 = (if algorithmSelected s \<noteq> Some ''Bitwise Not''
                then form_append ''secondImage'' (file_value (file1 s)) s else s)
      in (as, s1\<lparr>urlApiCall := Some (endpoint_base @ ''/bitOperations'')\<rparr>))"

definition processConvolutions :: "answers \<Rightarrow> state \<Rightarrow> answers \<times> state" where
  "processConvolutions as s = (as, s\<lparr>urlApiCall := Some (endpoint_base @ ''/convolution'')\<rparr>)"

definition processTransformations :: "answers \<Rightarrow> state \<Rightarrow> answers \<times> state" where
  "processTransformations as0 s0 = finish
     (continue_with (ask_number ''param'' ''Insert a number!'' as0 s0)
       (\<lambda>as s. Inr (as, s\<lparr>urlApiCall := Some (endpoint_base @ ''/transformations'')\<rparr>)))"

subsection \<open>The handlers\<close>

text \<open>
  The click on the process button (lines 272--308): append the image and the
  algorithm, run every helper whose list holds the algorithm, and send one
  request with the URL and the form data as they are at that moment.
\<close>

definition run_if :: "string list \<Rightarrow> (answers \<Rightarrow> state \<Rightarrow> answers \<times> state) \<Rightarrow>
    answers \<times> state \<Rightarrow> answers \<times> state" where
  "run_if xs f r = (let (as, s) = r in if index_of_opt xs (algorithmSelected s) \<noteq> -1 then f as s else (as, s))"

definition send_request :: "state \<Rightarrow> state" where
  "send_request s = s\<lparr>requests := requests s @ [\<lparr>req_url = urlApiCall s, req_data = formData s\<rparr>]\<rparr>"

definition processImageClick :: "answers \<Rightarrow> state \<Rightarrow> state" where
  "processImageClick as s =
     (let s1 = form_append ''image'' (file_value (file0 s)) s;
          s2 = form_append ''algorithm'' (str_value (algorithmSelected s1)) s1;
          r = run_if transformations processTransformations
               (run_if convolutions processConvolutions
                 (run_if bitOperations processBitOperationsAlgorithms
                   (run_if arithmeticOperations processArithmeticAlgorithms
                     (run_if mixedAlgorithms processMixedAlgorithms (as, s2)))))
      in send_request (snd r))"

text \<open>The \<^verbatim>\<open>success\<close> and \<^verbatim>\<open>error\<close> callbacks of the request.\<close>

definition ajaxSuccess :: "string \<Rightarrow> state \<Rightarrow> state" where
  "ajaxSuccess response s =
     (buttonsRules (s\<lparr>result_src := ''data:image/jpeg;base64,'' @ response\<rparr>))\<lparr>formData := []\<rparr>"

definition ajaxError :: "state \<Rightarrow> state" where
  "ajaxError s = (alert ''Error: '' s)\<lparr>formData := []\<rparr>"

text \<open>The \<^verbatim>\<open>change\<close> handler of the select (lines 146--154), given the select's value.\<close>

definition algorithmSelection :: "string \<Rightarrow> state \<Rightarrow> state" where
  "algorithmSelection v s =
     (let s1 = s\<lparr>algorithmSelected := Some v\<rparr>; a = algorithmSelected s1 in
      if index_of_opt arithmeticOperations a \<noteq> -1 \<or>
         (index_of_opt bitOperations a \<noteq> -1 \<and> a \<noteq> Some ''Bitwise Not'')
      then alert ''Upload a second image to use this algorithm!'' (s1\<lparr>second_display := ''contents''\<rparr>)
      else s1\<lparr>second_display := ''none''\<rparr>)"

text \<open>
  The \<^verbatim>\<open>change\<close> handlers of the two file inputs (lines 158--173, 177--193),
  given \<^verbatim>\<open>input.files[0]\<close>.  The file variable is assigned before its type is
  checked.
\<close>

definition uploadSecondImage :: "js_file option \<Rightarrow> state \<Rightarrow> state" where
  "uploadSecondImage v s =
     (case v of
        None \<Rightarrow> s
      | Some f \<Rightarrow>
          (let s1 = s\<lparr>file1 := Some f\<rparr> in
           if contains ''image'' (file_type f)
           then s1\<lparr>readers := readers s1 @ [(SecondPreview, f)]\<rparr>
           else alert ''Invalid file format. Please select an image file.'' s1))"

definition uploadFirstImage :: "js_file option \<Rightarrow> state \<Rightarrow> state" where
  "uploadFirstImage v s =
     (case v of
        None \<Rightarrow> s
      | Some f \<Rightarrow>
          (let s1 = s\<lparr>file0 := Some f\<rparr> in
           if contains ''image'' (file_type f)
           then s1\<lparr>readers := readers s1 @ [(FirstPreview, f)]\<rparr>
           else alert ''Invalid file format. Please select an image file.'' s1))"

text \<open>\<^verbatim>\<open>readAsDataURL\<close> yields \<^verbatim>\<open>data:<type>;base64,<contents>\<close>.\<close>

definition data_url :: "js_file \<Rightarrow> string" where
  "data_url f = ''data:'' @ file_type f @ '';base64,'' @ file_b64 f"

fun reader_onload :: "reader_target \<Rightarrow> js_file \<Rightarrow> state \<Rightarrow> state" where
  "reader_onload FirstPreview f s = buttonsRules (s\<lparr>original_src := data_url f\<rparr>)"
| "reader_onload SecondPreview f s = s\<lparr>original2_src := data_url f\<rparr>"

text \<open>
  Start-up (lines 123--128 and 261--266): the closure variables are fresh, the
  select is filled and localized, and the buttons are set.
\<close>

definition documentReady :: "page \<Rightarrow> state" where
  "documentReady d =
     page.extend (buttonsRules (translateAlgorithmOptions (setupSelectInputField d)))
       (state.fields [] None None None None [] [])"

subsection \<open>Events\<close>

text \<open>
  What can happen to the page: the user picks the \<open>i\<close>-th option, chooses a
  file in either input, clicks either button (with the answers to the prompts
  the click will raise); the browser finishes the \<open>i\<close>-th pending file read,
  or answers the \<open>i\<close>-th request in flight.  A disabled button does not
  receive clicks; picking the option already shown fires no \<^verbatim>\<open>change\<close>.
\<close>

datatype event =
    SelectAlgorithm nat
  | ChooseFirst "js_file option"
  | ChooseSecond "js_file option"
  | ReaderLoaded nat
  | ClickProcess answers
  | ClickSave
  | AjaxSuccess nat string
  | AjaxError nat

fun step :: "state \<Rightarrow> event \<Rightarrow> state" where
  "step s (SelectAlgorithm i) =
     (if i < length (options s) \<and> i \<noteq> selected_index s
      then algorithmSelection (opt_value (options s ! i)) (s\<lparr>selected_index := i\<rparr>) else s)"
| "step s (ChooseFirst v) = uploadFirstImage v s"
| "step s (ChooseSecond v) = uploadSecondImage v s"
| "step s (ReaderLoaded i) =
     (if i < length (readers s)
      then (case readers s ! i of (t, f) \<Rightarrow> reader_onload t f (s\<lparr>readers := remove_nth i (readers s)\<rparr>))
      else s)"
| "step s (ClickProcess as) = (if process_disabled s then s else processImageClick as s)"
| "step s ClickSave = (if save_disabled s then s else saveImage s)"
| "step s (AjaxSuccess i response) =
     (if i < length (requests s) then ajaxSuccess response (s\<lparr>requests := remove_nth i (requests s)\<rparr>) else s)"
| "step s (AjaxError i) =
     (if i < length (requests s) then ajaxError (s\<lparr>requests := remove_nth i (requests s)\<rparr>) else s)"

fun run :: "state \<Rightarrow> event list \<Rightarrow> state" where
  "run s [] = s"
| "run s (e # es) = run (step s e) es"

subsection \<open>Proof vocabulary\<close>

text \<open>
  \<open>only_params s s'\<close>: \<open>s'\<close> differs from \<open>s\<close> at most in the alerts, the
  form data and the URL, the three things the parameter helpers write.
  \<open>category_handler\<close> names the helper the click runs for each category.
\<close>

definition params_erased :: "state \<Rightarrow> state" where
  "params_erased s = s\<lparr>alerts := [], formData := [], urlApiCall := None\<rparr>"

definition only_params :: "state \<Rightarrow> state \<Rightarrow> bool" where
  "only_params s s' \<longleftrightarrow> params_erased s' = params_erased s \<and> prefix (formData s) (formData s')"

definition category_handler :: "category \<Rightarrow> answers \<Rightarrow> state \<Rightarrow> answers \<times> state" where
  "category_handler c = (case c of
      Mixed \<Rightarrow> processMixedAlgorithms | Arithmetic \<Rightarrow> processArithmeticAlgorithms
    | Bitwise \<Rightarrow> processBitOperationsAlgorithms | Convolution \<Rightarrow> processConvolutions
    | Transformation \<Rightarrow> processTransformations)"

declare form_append_def [handler_defs] ask_number_def [handler_defs]
  processMixedAlgorithms_def [handler_defs] processArithmeticAlgorithms_def [handler_defs]
  processBitOperationsAlgorithms_def [handler_defs] processConvolutions_def [handler_defs]
  processTransformations_def [handler_defs] processImageClick_def [handler_defs]
  ajaxSuccess_def [handler_defs] ajaxError_def [handler_defs] algorithmSelection_def [handler_defs]
  uploadFirstImage_def [handler_defs] uploadSecondImage_def [handler_defs]

subsection \<open>The parameter helpers and the dispatch\<close>

lemma buttonsRules_state_frame [simp]:
  "formData (buttonsRules s) = formData s" "algorithmSelected (buttonsRules s) = algorithmSelected s"
  "file0 (buttonsRules s) = file0 s" "file1 (buttonsRules s) = file1 s"
  "urlApiCall (buttonsRules s) = urlApiCall s" "readers (buttonsRules s) = readers s"
  "requests (buttonsRules s) = requests s"
  by (simp_all add: buttonsRules_def Let_def)

lemma alert_state_frame [simp]:
  "formData (alert m s) = formData s" "algorithmSelected (alert m s) = algorithmSelected s"
  "file0 (alert m s) = file0 s" "file1 (alert m s) = file1 s"
  "urlApiCall (alert m s) = urlApiCall s" "readers (alert m s) = readers s"
  "requests (alert m s) = requests s"
  by (simp_all add: alert_def)

lemma index_of_opt_Some [simp]: "(index_of_opt xs (Some a) = -1) = (a \<notin> set xs)"
  by (simp add: index_of_opt_def index_of_found)

lemma index_of_opt_None [simp]: "index_of_opt xs None = -1"
  by (simp add: index_of_opt_def)

lemma in_category_unique:
  "a \<in> set (category_list c) \<Longrightarrow> a \<in> set (category_list d) \<longleftrightarrow> d = c"
  using category_lists_disjoint [of c d] by blast

lemma run_if_eq [simp]:
  "run_if xs f r = (if index_of_opt xs (algorithmSelected (snd r)) \<noteq> -1 then f (fst r) (snd r) else r)"
  by (simp add: run_if_def split: prod.split)

lemma only_params_refl [simp]: "only_params s s"
  by (simp add: only_params_def)

lemma only_params_trans: "only_params s t \<Longrightarrow> only_params t u \<Longrightarrow> only_params s u"
  by (auto simp: only_params_def intro: prefix_order.trans)

lemma only_params_upd [simp]:
  "only_params s t \<Longrightarrow> only_params s (alert m t)"
  "only_params s t \<Longrightarrow> only_params s (form_append k v t)"
  "only_params s t \<Longrightarrow> only_params s (t\<lparr>urlApiCall := u\<rparr>)"
  by (auto simp: only_params_def params_erased_def alert_def form_append_def intro: prefix_order.trans)

lemma only_params_fields:
  assumes "only_params s s'"
  shows "algorithmSelected s' = algorithmSelected s" "file0 s' = file0 s" "file1 s' = file1 s"
    "requests s' = requests s" "readers s' = readers s" "original_src s' = original_src s"
    "result_src s' = result_src s" "process_disabled s' = process_disabled s"
    "save_disabled s' = save_disabled s" "options s' = options s" "downloads s' = downloads s"
    "second_display s' = second_display s" "selected_index s' = selected_index s"
    "original2_src s' = original2_src s" "save_visible s' = save_visible s"
    "prefix (formData s) (formData s')"
proof -
  have e: "params_erased s' = params_erased s" using assms by (simp add: only_params_def)
  show "prefix (formData s) (formData s')" using assms by (simp add: only_params_def)
  show "algorithmSelected s' = algorithmSelected s" using arg_cong [OF e, of algorithmSelected] by (simp add: params_erased_def)
  show "file0 s' = file0 s" using arg_cong [OF e, of file0] by (simp add: params_erased_def)
  show "file1 s' = file1 s" using arg_cong [OF e, of file1] by (simp add: params_erased_def)
  show "requests s' = requests s" using arg_cong [OF e, of requests] by (simp add: params_erased_def)
  show "readers s' = readers s" using arg_cong [OF e, of readers] by (simp add: params_erased_def)
  show "original_src s' = original_src s" using arg_cong [OF e, of original_src] by (simp add: params_erased_def)
  show "result_src s' = result_src s" using arg_cong [OF e, of result_src] by (simp add: params_erased_def)
  show "process_disabled s' = process_disabled s" using arg_cong [OF e, of process_disabled] by (simp add: params_erased_def)
  show "save_disabled s' = save_disabled s" using arg_cong [OF e, of save_disabled] by (simp add: params_erased_def)
  show "options s' = options s" using arg_cong [OF e, of options] by (simp add: params_erased_def)
  show "downloads s' = downloads s" using arg_cong [OF e, of downloads] by (simp add: params_erased_def)
  show "second_display s' = second_display s" using arg_cong [OF e, of second_display] by (simp add: params_erased_def)
  show "selected_index s' = selected_index s" using arg_cong [OF e, of selected_index] by (simp add: params_erased_def)
  show "original2_src s' = original2_src s" using arg_cong [OF e, of original2_src] by (simp add: params_erased_def)
  show "save_visible s' = save_visible s" using arg_cong [OF e, of save_visible] by (simp add: params_erased_def)
qed

lemma finish_continue_with [simp]:
  "finish (continue_with r f) = (case r of Inl x \<Rightarrow> x | Inr (as, s) \<Rightarrow> finish (f as s))"
  by (simp add: continue_with_def finish_def split: sum.split prod.split)

lemma continue_with_simps [simp]:
  "continue_with (Inl x) f = Inl x" "continue_with (Inr (as, s)) f = f as s"
  by (simp_all add: continue_with_def)

lemma finish_simps [simp]: "finish (Inl x) = x" "finish (Inr x) = x"
  by (simp_all add: finish_def)

lemma continue_with_frame:
  assumes "only_params s (snd (finish r))"
    and "\<And>as' s'. r = Inr (as', s') \<Longrightarrow> only_params s' (snd (finish (f as' s')))"
  shows "only_params s (snd (finish (continue_with r f)))"
proof (cases r)
  case (Inl x)
  with assms(1) show ?thesis by simp
next
  case (Inr y)
  obtain as' s' where y: "y = (as', s')" by (cases y)
  with Inr assms(1) have "only_params s s'" by simp
  moreover from Inr y assms(2) have "only_params s' (snd (finish (f as' s')))" by simp
  ultimately show ?thesis using Inr y by (simp add: only_params_trans)
qed

lemma ask_number_frame: "only_params s (snd (finish (ask_number fld msg as s)))"
  by (simp add: ask_number_def split: prod.split)

lemma ask_number_Inr: "ask_number fld msg as s = Inr (as', s') \<Longrightarrow> only_params s s'"
  by (auto simp: ask_number_def split: prod.splits if_splits)

lemma processMixedAlgorithms_frame: "only_params s (snd (processMixedAlgorithms as s))"
  unfolding processMixedAlgorithms_def
  by (intro continue_with_frame) (simp_all del: finish_continue_with add: ask_number_frame)

lemma processTransformations_frame: "only_params s (snd (processTransformations as s))"
  unfolding processTransformations_def
  by (intro continue_with_frame) (simp_all del: finish_continue_with add: ask_number_frame)

lemma processArithmeticAlgorithms_frame: "only_params s (snd (processArithmeticAlgorithms as s))"
  by (simp add: processArithmeticAlgorithms_def)

lemma processBitOperationsAlgorithms_frame: "only_params s (snd (processBitOperationsAlgorithms as s))"
  by (simp add: processBitOperationsAlgorithms_def Let_def)

lemma processConvolutions_frame: "only_params s (snd (processConvolutions as s))"
  by (simp add: processConvolutions_def)

lemmas helper_frames = processMixedAlgorithms_frame processArithmeticAlgorithms_frame
  processBitOperationsAlgorithms_frame processConvolutions_frame processTransformations_frame

lemma run_if_frame:
  assumes "\<And>as s. only_params s (snd (f as s))" and "only_params t (snd r)"
  shows "only_params t (snd (run_if xs f r))"
  using assms(2) only_params_trans [OF assms(2) assms(1)] by simp

text \<open>
  The click handler sends exactly one request, built from a state that differs
  from the one it started in only in alerts, form data and URL, and whose form
  data extends the old one by the image and the algorithm.
\<close>

lemma processImageClick_sends:
  "\<exists>t. only_params (form_append ''algorithm'' (str_value (algorithmSelected s))
           (form_append ''image'' (file_value (file0 s)) s)) t \<and>
       processImageClick as s = send_request t"
proof -
  let ?s2 = "form_append ''algorithm'' (str_value (algorithmSelected s)) (form_append ''image'' (file_value (file0 s)) s)"
  let ?r = "run_if transformations processTransformations
               (run_if convolutions processConvolutions
                 (run_if bitOperations processBitOperationsAlgorithms
                   (run_if arithmeticOperations processArithmeticAlgorithms
                     (run_if mixedAlgorithms processMixedAlgorithms (as, ?s2)))))"
  have eq: "processImageClick as s = send_request (snd ?r)"
    by (simp add: processImageClick_def form_append_def Let_def del: run_if_eq)
  have "only_params ?s2 (snd ?r)"
    by (rule run_if_frame [OF processTransformations_frame] run_if_frame [OF processConvolutions_frame]
        run_if_frame [OF processBitOperationsAlgorithms_frame] run_if_frame [OF processArithmeticAlgorithms_frame]
        run_if_frame [OF processMixedAlgorithms_frame])+ simp
  with eq show ?thesis by blast
qed

lemma processImageClick_frame:
  "\<exists>t. only_params s t \<and> processImageClick as s = send_request t"
proof -
  obtain t where t: "only_params (form_append ''algorithm'' (str_value (algorithmSelected s))
           (form_append ''image'' (file_value (file0 s)) s)) t" and eq: "processImageClick as s = send_request t"
    using processImageClick_sends by blast
  have "only_params s (form_append ''algorithm'' (str_value (algorithmSelected s))
           (form_append ''image'' (file_value (file0 s)) s))" by simp
  from only_params_trans [OF this t] eq show ?thesis by blast
qed

lemma category_handler_frame: "only_params s (snd (category_handler c as s))"
  by (cases c) (simp_all add: category_handler_def processMixedAlgorithms_frame processTransformations_frame
       processArithmeticAlgorithms_def processBitOperationsAlgorithms_def processConvolutions_def
       Let_def only_params_trans)

lemma click_dispatch:
  assumes "algorithmSelected s = Some a" and "a \<in> set (category_list c)"
  shows "processImageClick as s =
    send_request (snd (category_handler c as
      (form_append ''algorithm'' (FStr a) (form_append ''image'' (file_value (file0 s)) s))))"
proof -
  let ?s2 = "form_append ''algorithm'' (FStr a) (form_append ''image'' (file_value (file0 s)) s)"
  have sel2: "algorithmSelected ?s2 = Some a" using assms(1) by (simp add: form_append_def)
  have mem: "\<And>d. a \<in> set (category_list d) \<longleftrightarrow> d = c" using assms(2) by (rule in_category_unique)
  have keep: "algorithmSelected (snd (category_handler c as ?s2)) = Some a"
    using only_params_fields(1) [OF category_handler_frame] sel2 by simp
  have ps: "processImageClick as s = send_request (snd (run_if transformations processTransformations
               (run_if convolutions processConvolutions
                 (run_if bitOperations processBitOperationsAlgorithms
                   (run_if arithmeticOperations processArithmeticAlgorithms
                     (run_if mixedAlgorithms processMixedAlgorithms (as, ?s2)))))))"
    using assms(1) by (simp add: processImageClick_def str_value_def form_append_def Let_def del: run_if_eq)
  show ?thesis
    using mem [of Mixed] mem [of Arithmetic] mem [of Bitwise] mem [of Convolution] mem [of Transformation]
      keep sel2 unfolding ps
    by (cases c) (simp_all add: category_handler_def)
qed


text \<open>
  The parameter helpers branch by branch.  The branches of
  \<open>processMixedAlgorithms\<close> that end early leave \<open>urlApiCall\<close> as it was,
  and keep whatever was appended before the failing prompt.
\<close>

lemma mixed_plain:
  "algorithmSelected s = Some a \<Longrightarrow> a \<notin> {''Rescaling'', ''Shift&Rescale'', ''Bit Plane Slicing''} \<Longrightarrow>
   processMixedAlgorithms as s = (as, s\<lparr>urlApiCall := Some endpoint_base\<rparr>)"
  by (simp add: processMixedAlgorithms_def)

lemma mixed_rescaling:
  "algorithmSelected s = Some ''Rescaling'' \<Longrightarrow> isNumeric v \<Longrightarrow>
   processMixedAlgorithms (v # as) s =
     (as, s\<lparr>formData := formData s @ [(''scalingFactor'', FStr (the v))], urlApiCall := Some endpoint_base\<rparr>)"
  by (simp add: processMixedAlgorithms_def ask_number_def prompt_def form_append_def)

lemma mixed_shift_rescale:
  "algorithmSelected s = Some ''Shift&Rescale'' \<Longrightarrow> isNumeric v \<Longrightarrow> isNumeric w \<Longrightarrow>
   processMixedAlgorithms (v # w # as) s =
     (as, s\<lparr>formData := formData s @ [(''scalingFactor'', FStr (the v)), (''shiftingValue'', FStr (the w))],
            urlApiCall := Some endpoint_base\<rparr>)"
  by (simp add: processMixedAlgorithms_def ask_number_def prompt_def form_append_def)

lemma mixed_bit_plane:
  "algorithmSelected s = Some ''Bit Plane Slicing'' \<Longrightarrow> isNumeric v \<Longrightarrow>
   processMixedAlgorithms (v # as) s =
     (as, s\<lparr>formData := formData s @ [(''nBit'', FStr (the v))], urlApiCall := Some endpoint_base\<rparr>)"
  by (simp add: processMixedAlgorithms_def ask_number_def prompt_def form_append_def)

lemma mixed_scaling_rejected:
  "algorithmSelected s = Some ''Rescaling'' \<or> algorithmSelected s = Some ''Shift&Rescale'' \<Longrightarrow>
   \<not> isNumeric v \<Longrightarrow>
   processMixedAlgorithms (v # as) s = (as, alert ''Insert a number for the scaling factor!'' s)"
  by (auto simp: processMixedAlgorithms_def ask_number_def prompt_def alert_def)

lemma mixed_shifting_rejected:
  "algorithmSelected s = Some ''Shift&Rescale'' \<Longrightarrow> isNumeric v \<Longrightarrow> \<not> isNumeric w \<Longrightarrow>
   processMixedAlgorithms (v # w # as) s =
     (as, alert ''Insert a number for the shifting value!''
            (s\<lparr>formData := formData s @ [(''scalingFactor'', FStr (the v))]\<rparr>))"
  by (simp add: processMixedAlgorithms_def ask_number_def prompt_def form_append_def alert_def)

lemma transformations_accepted:
  "isNumeric v \<Longrightarrow>
   processTransformations (v # as) s =
     (as, s\<lparr>formData := formData s @ [(''param'', FStr (the v))],
            urlApiCall := Some (endpoint_base @ ''/transformations'')\<rparr>)"
  by (simp add: processTransformations_def ask_number_def prompt_def form_append_def)

lemma transformations_rejected:
  "\<not> isNumeric v \<Longrightarrow> processTransformations (v # as) s = (as, alert ''Insert a number!'' s)"
  by (simp add: processTransformations_def ask_number_def prompt_def)

text \<open>
  The fields each helper appends: at most two, with distinct names, none of
  them \<^verbatim>\<open>image\<close> or \<^verbatim>\<open>algorithm\<close>.
\<close>

lemma mixed_fields:
  "\<exists>X. formData (snd (processMixedAlgorithms as s)) = formData s @ X \<and>
     map fst X \<in> {[], [''scalingFactor''], [''scalingFactor'', ''shiftingValue''], [''nBit'']}"
proof -
  consider "algorithmSelected s = Some ''Rescaling''" | "algorithmSelected s = Some ''Shift&Rescale''"
    | "algorithmSelected s = Some ''Bit Plane Slicing''"
    | "algorithmSelected s \<notin> {Some ''Rescaling'', Some ''Shift&Rescale'', Some ''Bit Plane Slicing''}"
    by blast
  then show ?thesis
  proof cases
    case 4
    then show ?thesis by (simp add: processMixedAlgorithms_def)
  qed (cases as; cases "tl as";
       simp add: processMixedAlgorithms_def ask_number_def prompt_def form_append_def alert_def)+
qed

lemma mixed_names:
  "ns \<in> {[], [''scalingFactor''], [''scalingFactor'', ''shiftingValue''], [''nBit'']} \<Longrightarrow>
   distinct ns \<and> length ns \<le> 2 \<and> set ns \<subseteq> {''scalingFactor'', ''shiftingValue'', ''nBit'', ''secondImage'', ''param''}"
  by (elim insertE emptyE) simp_all

lemma handler_fields:
  "\<exists>X. formData (snd (category_handler c as s)) = formData s @ X \<and> distinct (map fst X) \<and> length X \<le> 2 \<and>
     set (map fst X) \<subseteq> {''scalingFactor'', ''shiftingValue'', ''nBit'', ''secondImage'', ''param''}"
proof (cases c)
  case Mixed
  from mixed_fields [of as s] obtain X where em: "formData (snd (processMixedAlgorithms as s)) = formData s @ X \<and>
      map fst X \<in> {[], [''scalingFactor''], [''scalingFactor'', ''shiftingValue''], [''nBit'']}" ..
  have n: "distinct (map fst X) \<and> length (map fst X) \<le> 2 \<and>
      set (map fst X) \<subseteq> {''scalingFactor'', ''shiftingValue'', ''nBit'', ''secondImage'', ''param''}"
    by (rule mixed_names [OF conjunct2 [OF em]])
  have h: "formData (snd (category_handler c as s)) = formData s @ X"
    using Mixed conjunct1 [OF em] by (simp add: category_handler_def)
  from h n show ?thesis by (intro exI [of _ X]) (simp only: length_map)
next
  case Transformation
  then show ?thesis
    by (cases as) (simp_all add: category_handler_def processTransformations_def ask_number_def prompt_def
        form_append_def alert_def)
next
  case Arithmetic
  then show ?thesis by (simp add: category_handler_def processArithmeticAlgorithms_def form_append_def)
next
  case Bitwise
  then show ?thesis
    by (simp add: category_handler_def processBitOperationsAlgorithms_def form_append_def Let_def)
next
  case Convolution
  then show ?thesis by (simp add: category_handler_def processConvolutions_def)
qed

subsection \<open>What each handler does\<close>

text \<open>
  C9: The select's change handler records the chosen value and shows the second-image
  area (with an alert) exactly for the arithmetic algorithms and the bitwise ones other
  than Bitwise Not, hiding it otherwise: the unparenthesised a || b && c of the source
  implements the intended rule.
\<close>

theorem algorithmSelection_second_image:
  "second_display (algorithmSelection v s) =
     (if v \<in> set arithmeticOperations \<union> (set bitOperations - {''Bitwise Not''}) then ''contents'' else ''none'') \<and>
   alerts (algorithmSelection v s) =
     alerts s @ (if v \<in> set arithmeticOperations \<union> (set bitOperations - {''Bitwise Not''})
                 then [''Upload a second image to use this algorithm!''] else []) \<and>
   algorithmSelected (algorithmSelection v s) = Some v"
  by (auto simp: algorithmSelection_def Let_def alert_def)

text \<open>
  C21: The success callback sets the result image to the data URL
  data:image/jpeg;base64, followed by the response, shows the save button, empties the
  form data and leaves the process button disabled exactly when there is no original
  image.
\<close>

theorem ajaxSuccess_shows_result:
  "result_src (ajaxSuccess r s) = ''data:image/jpeg;base64,'' @ r \<and> save_visible (ajaxSuccess r s) \<and>
   formData (ajaxSuccess r s) = [] \<and> process_disabled (ajaxSuccess r s) = (original_src s = '''')"
  by (simp add: ajaxSuccess_def)

text \<open>
  C24: Choosing a first file whose type does not contain 'image' alerts and starts no
  read, but the handler has already stored the file in the variable that the next
  submission sends as the image.
\<close>

theorem invalid_first_file_kept:
  assumes "\<not> contains ''image'' (file_type f)"
  shows "uploadFirstImage (Some f) s =
    (alert ''Invalid file format. Please select an image file.'' s)\<lparr>file0 := Some f\<rparr>"
  using assms by (simp add: uploadFirstImage_def alert_def)

lemma invalid_first_file_kept_witness:
  "uploadFirstImage (Some \<lparr>file_name = ''notes.txt'', file_type = ''text/plain'', file_b64 = ''''\<rparr>) (documentReady blank_page) =
    (alert ''Invalid file format. Please select an image file.'' (documentReady blank_page))
      \<lparr>file0 := Some \<lparr>file_name = ''notes.txt'', file_type = ''text/plain'', file_b64 = ''''\<rparr>\<rparr>"
proof -
  have "\<not> contains ''image'' (file_type \<lparr>file_name = ''notes.txt'', file_type = ''text/plain'', file_b64 = ''''\<rparr>)"
    by code_simp
  then show ?thesis by (rule invalid_first_file_kept)
qed

text \<open>
  C27: A first file is accepted (stored and read for the preview) whenever its declared
  type contains 'image' anywhere, since the pattern 'image.*' is not anchored; the
  witness accepts application/x-image-raw.
\<close>

theorem first_image_accepted:
  assumes "contains ''image'' (file_type f)"
  shows "uploadFirstImage (Some f) s = s\<lparr>file0 := Some f, readers := readers s @ [(FirstPreview, f)]\<rparr>"
  using assms by (simp add: uploadFirstImage_def)

lemma first_image_accepted_witness:
  "uploadFirstImage (Some \<lparr>file_name = ''raw.bin'', file_type = ''application/x-image-raw'', file_b64 = ''AA''\<rparr>)
      (documentReady blank_page) =
    (documentReady blank_page)\<lparr>file0 := Some \<lparr>file_name = ''raw.bin'', file_type = ''application/x-image-raw'', file_b64 = ''AA''\<rparr>,
      readers := readers (documentReady blank_page) @
        [(FirstPreview, \<lparr>file_name = ''raw.bin'', file_type = ''application/x-image-raw'', file_b64 = ''AA''\<rparr>)]\<rparr>"
proof -
  have "contains ''image'' (file_type \<lparr>file_name = ''raw.bin'', file_type = ''application/x-image-raw'', file_b64 = ''AA''\<rparr>)"
    by code_simp
  then show ?thesis by (rule first_image_accepted)
qed

end
