(* ===== verification/Runs.thy ===== *)
theory Runs
  imports Controller
begin

text \<open>
  Runs of the controller.  A page is fresh when its select is empty, no
  original image is shown and nothing has been downloaded; the reachable
  states are those of \<open>documentReady\<close> on a fresh page followed by any
  sequence of events, in any interleaving of user actions, file reads and
  server answers.  \<open>ctrl_inv\<close> collects what holds in all of them; it is
  proved by rule induction over \<open>reachable\<close> with one preservation lemma per
  kind of event, and each claim below is one of its consequences.
\<close>

definition fresh_page :: "page \<Rightarrow> bool" where
  "fresh_page d \<longleftrightarrow> options d = [] \<and> original_src d = '''' \<and> downloads d = []"

inductive reachable :: "state \<Rightarrow> bool" where
  start: "fresh_page d \<Longrightarrow> reachable (documentReady d)"
| event: "reachable s \<Longrightarrow> reachable (step s e)"

definition ctrl_inv :: "state \<Rightarrow> bool" where
  "ctrl_inv s \<longleftrightarrow>
     save_disabled s \<and> downloads s = [] \<and>
     process_disabled s = (original_src s = '''') \<and>
     (requests s = [] \<longrightarrow> formData s = []) \<and>
     map opt_value (options s) = all_algorithms \<and>
     list_all (\<lambda>(t, f). contains ''image'' (file_type f)) (readers s) \<and>
     (case algorithmSelected s of None \<Rightarrow> True | Some a \<Rightarrow> a \<in> set all_algorithms)"

text \<open>An image file, for the concrete runs below.\<close>

definition photo :: js_file where
  "photo = \<lparr>file_name = ''a.jpg'', file_type = ''image/jpeg'', file_b64 = ''AAAA''\<rparr>"

text \<open>A second image file and a file that is not an image.\<close>

definition scan :: js_file where
  "scan = \<lparr>file_name = ''b.png'', file_type = ''image/png'', file_b64 = ''BBBB''\<rparr>"

definition pdf_doc :: js_file where
  "pdf_doc = \<lparr>file_name = ''pdf_doc.pdf'', file_type = ''application/pdf'', file_b64 = ''CCCC''\<rparr>"

text \<open>A session: the page starts, an image is chosen and its preview loaded.\<close>

definition loaded_page :: state where
  "loaded_page = run (documentReady blank_page) [ChooseFirst (Some photo), ReaderLoaded 0]"

subsection \<open>The invariant\<close>

lemma documentReady_fields:
  "formData (documentReady d) = []" "algorithmSelected (documentReady d) = None"
  "file0 (documentReady d) = None" "file1 (documentReady d) = None" "urlApiCall (documentReady d) = None"
  "readers (documentReady d) = []" "requests (documentReady d) = []"
  "options (documentReady d) = map translate_option (options d @ map new_option all_algorithms)"
  "original_src (documentReady d) = original_src d" "result_src (documentReady d) = result_src d"
  "process_disabled (documentReady d) = (original_src d = '''')"
  "save_disabled (documentReady d) = (original_src d = '''' \<or> save_disabled d)"
  "downloads (documentReady d) = downloads d"
  "selected_index (documentReady d) = selected_index d" "original2_src (documentReady d) = original2_src d"
  "second_display (documentReady d) = second_display d" "alerts (documentReady d) = alerts d"
  "save_visible (documentReady d) = (save_visible d \<or> result_src d \<noteq> [])"
  by (simp_all add: documentReady_def page.defs state.defs setupSelectInputField_options)

lemma documentReady_inv: "fresh_page d \<Longrightarrow> ctrl_inv (documentReady d)"
  by (simp add: ctrl_inv_def fresh_page_def documentReady_fields comp_def)

lemma inv_select:
  assumes "ctrl_inv s" and "i < length (options s)"
  shows "ctrl_inv (algorithmSelection (opt_value (options s ! i)) (s\<lparr>selected_index := i\<rparr>))"
proof -
  have "opt_value (options s ! i) = all_algorithms ! i"
    using assms by (metis ctrl_inv_def nth_map)
  moreover have "i < length all_algorithms"
    using assms by (metis ctrl_inv_def length_map)
  ultimately have "opt_value (options s ! i) \<in> set all_algorithms" by simp
  with assms(1) show ?thesis by (simp add: ctrl_inv_def algorithmSelection_def Let_def alert_def)
qed

lemma inv_upload:
  "ctrl_inv s \<Longrightarrow> ctrl_inv (uploadFirstImage v s)"
  "ctrl_inv s \<Longrightarrow> ctrl_inv (uploadSecondImage v s)"
  by (auto simp: ctrl_inv_def uploadFirstImage_def uploadSecondImage_def alert_def Let_def split: option.split)

lemma data_url_ne: "data_url f \<noteq> ''''"
  by (simp add: data_url_def)

lemma inv_reader:
  assumes "ctrl_inv s" and "i < length (readers s)"
  shows "ctrl_inv (case readers s ! i of (t, f) \<Rightarrow> reader_onload t f (s\<lparr>readers := remove_nth i (readers s)\<rparr>))"
proof -
  have "list_all (\<lambda>(t, f). contains ''image'' (file_type f)) (remove_nth i (readers s))"
    using assms(1) set_remove_nth [of i "readers s"] by (auto simp: ctrl_inv_def list_all_iff)
  with assms(1) show ?thesis
    by (cases "readers s ! i"; cases "fst (readers s ! i)") (auto simp: ctrl_inv_def data_url_ne)
qed

lemma inv_click: "ctrl_inv s \<Longrightarrow> ctrl_inv (processImageClick as s)"
proof -
  assume inv: "ctrl_inv s"
  obtain t where t: "only_params s t" and eq: "processImageClick as s = send_request t"
    using processImageClick_frame by blast
  show ?thesis
    using inv only_params_fields [OF t] unfolding eq by (simp add: ctrl_inv_def send_request_def)
qed

lemma inv_ajax:
  "ctrl_inv s \<Longrightarrow> ctrl_inv (ajaxSuccess r (s\<lparr>requests := q\<rparr>))"
  "ctrl_inv s \<Longrightarrow> ctrl_inv (ajaxError (s\<lparr>requests := q\<rparr>))"
  by (simp_all add: ctrl_inv_def ajaxSuccess_def ajaxError_def alert_def)

lemma step_inv:
  assumes "ctrl_inv s"
  shows "ctrl_inv (step s e)"
proof (cases e)
  case (SelectAlgorithm i)
  then show ?thesis using assms inv_select by simp
qed (use assms inv_upload inv_reader inv_click inv_ajax in \<open>auto simp: ctrl_inv_def\<close>)

lemma reachable_inv: "reachable s \<Longrightarrow> ctrl_inv s"
  by (induction rule: reachable.induct) (simp_all add: documentReady_inv step_inv)

subsection \<open>A concrete session\<close>

lemma fresh_blank_page: "fresh_page blank_page"
  by (simp add: fresh_page_def blank_page_def)

lemma reachable_run: "reachable s \<Longrightarrow> reachable (run s es)"
proof (induction es arbitrary: s)
  case Nil
  then show ?case by simp
next
  case (Cons e es)
  then show ?case by (simp add: reachable.event)
qed

lemma reachable_start_blank: "reachable (documentReady blank_page)"
  by (rule reachable.start) (simp add: fresh_page_def blank_page_def)

subsection \<open>Properties of every reachable state\<close>

text \<open>
  C3: In every reachable state the save button is disabled, no download has ever
  started, and a click on save changes nothing: buttonsRules disables it at start-up and
  nothing ever enables it again (the enabling line is commented out).
\<close>

theorem save_never_downloads:
  "reachable s \<Longrightarrow> save_disabled s \<and> downloads s = [] \<and> step s ClickSave = s"
  using reachable_inv by (simp add: ctrl_inv_def)

lemma save_never_downloads_witness:
  "reachable (documentReady blank_page) \<and> save_disabled (documentReady blank_page) \<and>
   downloads (documentReady blank_page) = [] \<and> step (documentReady blank_page) ClickSave = documentReady blank_page"
  using reachable_start_blank save_never_downloads [OF reachable_start_blank] by simp

text \<open>
  C4: In every reachable state without an original image the process button is disabled,
  so a click on it sends no request and changes nothing.
\<close>

theorem no_request_without_image:
  "reachable s \<Longrightarrow> original_src s = '''' \<Longrightarrow> step s (ClickProcess as) = s"
  using reachable_inv by (simp add: ctrl_inv_def)

lemma no_request_without_image_witness:
  "reachable (documentReady blank_page) \<and> original_src (documentReady blank_page) = '''' \<and>
   step (documentReady blank_page) (ClickProcess []) = documentReady blank_page"
proof -
  have o: "original_src (documentReady blank_page) = ''''"
    by (simp add: documentReady_fields blank_page_def)
  show ?thesis using reachable_start_blank o no_request_without_image [OF reachable_start_blank o] by simp
qed

text \<open>
  C31: In every reachable state with no request in flight the form data is empty: each
  request's callback resets it and only a click, which always sends, fills it.
\<close>

theorem form_empty_when_idle:
  "reachable s \<Longrightarrow> requests s = [] \<Longrightarrow> formData s = []"
  using reachable_inv by (simp add: ctrl_inv_def)

lemma form_empty_when_idle_witness:
  "reachable (documentReady blank_page) \<and> requests (documentReady blank_page) = [] \<and>
   formData (documentReady blank_page) = []"
  using reachable_start_blank form_empty_when_idle [OF reachable_start_blank] by (simp add: documentReady_fields)

text \<open>
  C32: In every reachable state the values of the select's options are exactly the
  catalog names in declaration order, whatever the displayed labels.
\<close>

theorem options_canonical:
  "reachable s \<Longrightarrow> map opt_value (options s) = all_algorithms"
  using reachable_inv by (simp add: ctrl_inv_def)

lemma options_canonical_witness:
  "reachable (documentReady blank_page) \<and>
   map opt_value (options (documentReady blank_page)) = all_algorithms"
  using reachable_start_blank options_canonical [OF reachable_start_blank] by simp

text \<open>
  C33: Every file read that is pending in a reachable state is for a file whose declared
  type contains 'image'.
\<close>

theorem pending_reads_are_images:
  "reachable s \<Longrightarrow> (t, f) \<in> set (readers s) \<Longrightarrow> contains ''image'' (file_type f)"
  using reachable_inv by (fastforce simp: ctrl_inv_def list_all_iff)

lemma pending_reads_are_images_witness:
  "reachable (step (documentReady blank_page) (ChooseFirst (Some photo))) \<and>
   (FirstPreview, photo) \<in> set (readers (step (documentReady blank_page) (ChooseFirst (Some photo)))) \<and>
   contains ''image'' (file_type photo)"
proof -
  have r: "reachable (step (documentReady blank_page) (ChooseFirst (Some photo)))"
    by (rule reachable.event [OF reachable_start_blank])
  have m: "(FirstPreview, photo) \<in> set (readers (step (documentReady blank_page) (ChooseFirst (Some photo))))"
    by (simp add: uploadFirstImage_def documentReady_fields photo_def)
  show ?thesis using r m pending_reads_are_images [OF r m] by simp
qed

text \<open>
  C34: In every reachable state the selected algorithm, once defined, is one of the
  catalog names.
\<close>

theorem selected_in_catalog:
  "reachable s \<Longrightarrow> algorithmSelected s = Some a \<Longrightarrow> a \<in> set all_algorithms"
  using reachable_inv by (force simp: ctrl_inv_def)

lemma selected_in_catalog_witness:
  "reachable (step (documentReady blank_page) (SelectAlgorithm 21)) \<and>
   algorithmSelected (step (documentReady blank_page) (SelectAlgorithm 21)) = Some ''Convolution - Sobel X'' \<and>
   ''Convolution - Sobel X'' \<in> set all_algorithms"
proof -
  have r: "reachable (step (documentReady blank_page) (SelectAlgorithm 21))"
    by (rule reachable.event [OF reachable_start_blank])
  have a: "algorithmSelected (step (documentReady blank_page) (SelectAlgorithm 21)) = Some ''Convolution - Sobel X''"
    by (simp add: documentReady_fields blank_page_def algorithmSelection_def Let_def alert_def
        all_algorithms_eq catalog_defs)
  show ?thesis using r a selected_in_catalog [OF r a] by simp
qed
subsection \<open>The loaded session\<close>

lemma loaded_page_fields:
  "process_disabled loaded_page = False" "requests loaded_page = []" "algorithmSelected loaded_page = None"
  "file0 loaded_page = Some photo" "formData loaded_page = []" "urlApiCall loaded_page = None"
  "selected_index loaded_page = 0" "map opt_value (options loaded_page) = all_algorithms"
  "file1 loaded_page = None"
  by (simp_all add: loaded_page_def documentReady_fields uploadFirstImage_def photo_def data_url_def
      remove_nth_def blank_page_def comp_def)

lemma loaded_option_value:
  "i < length all_algorithms \<Longrightarrow> i < length (options loaded_page) \<and> opt_value (options loaded_page ! i) = all_algorithms ! i"
  using loaded_page_fields(8) by (metis length_map nth_map)

lemma loaded_select:
  assumes "0 < i" and "i < length all_algorithms"
  shows "algorithmSelected (step loaded_page (SelectAlgorithm i)) = Some (all_algorithms ! i) \<and>
    process_disabled (step loaded_page (SelectAlgorithm i)) = False \<and>
    requests (step loaded_page (SelectAlgorithm i)) = [] \<and>
    formData (step loaded_page (SelectAlgorithm i)) = [] \<and>
    file0 (step loaded_page (SelectAlgorithm i)) = Some photo \<and>
    reachable (step loaded_page (SelectAlgorithm i))"
proof -
  have r0: "reachable loaded_page"
    unfolding loaded_page_def by (rule reachable_run [OF reachable_start_blank])
  have v: "i < length (options loaded_page)" "opt_value (options loaded_page ! i) = all_algorithms ! i"
    using loaded_option_value [OF assms(2)] by simp_all
  have st: "step loaded_page (SelectAlgorithm i) =
      algorithmSelection (all_algorithms ! i) (loaded_page\<lparr>selected_index := i\<rparr>)"
    using v assms(1) loaded_page_fields(7) by simp
  show ?thesis unfolding st
    using loaded_page_fields reachable.event [OF r0, of "SelectAlgorithm i"] st
    by (simp add: algorithmSelection_def Let_def alert_def)
qed
lemma loaded_select_frame:
  "urlApiCall (step loaded_page (SelectAlgorithm i)) = None"
  "file1 (step loaded_page (SelectAlgorithm i)) = None"
  by (simp_all add: loaded_page_fields algorithmSelection_def Let_def alert_def)

end
