(* ===== verification/Contract.thy ===== *)
theory Contract
  imports Runs
begin

text \<open>
  The contract of the submit action as the specification states it (sections
  4 and 9 of \<^verbatim>\<open>spec.md\<close>): a registry that gives each algorithm its
  category, the numeric parameters it prompts for and whether it needs the
  second image, the routing table from category to endpoint, and
  \<open>contract_request\<close>, the single request a submit issues, or \<open>None\<close> when a
  prompt answer is not numeric and the submit must abort with nothing sent.
  \<open>handler_contract\<close> shows that each category's helper appends exactly the
  contract's fields; the two theorems at the end relate a click of the
  controller to the contract: with valid answers from an idle state the click
  sends exactly the contract's request, and where the contract aborts the
  click still sends a request.
\<close>

definition endpoint :: "category \<Rightarrow> string" where
  "endpoint c = ''http://localhost:8080/imageProcessing/process'' @
     (case c of Mixed \<Rightarrow> '''' | Arithmetic \<Rightarrow> ''/arithmeticOperations'' | Bitwise \<Rightarrow> ''/bitOperations''
      | Convolution \<Rightarrow> ''/convolution'' | Transformation \<Rightarrow> ''/transformations'')"

definition category_of :: "string \<Rightarrow> category option" where
  "category_of a = find (\<lambda>c. a \<in> set (category_list c)) categories"

definition numeric_params :: "string \<Rightarrow> string list" where
  "numeric_params a =
     (if a = ''Rescaling'' then [''scalingFactor'']
      else if a = ''Shift&Rescale'' then [''scalingFactor'', ''shiftingValue'']
      else if a = ''Bit Plane Slicing'' then [''nBit'']
      else if a \<in> set transformations then [''param''] else [])"

definition needs_second :: "string \<Rightarrow> bool" where
  "needs_second a \<longleftrightarrow> a \<in> set arithmeticOperations \<or> (a \<in> set bitOperations \<and> a \<noteq> ''Bitwise Not'')"

definition param_fields :: "string list \<Rightarrow> answers \<Rightarrow> form_data" where
  "param_fields ps vs = zip ps (map (\<lambda>v. FStr (the v)) vs)"

definition contract_request :: "string \<Rightarrow> js_file option \<Rightarrow> js_file option \<Rightarrow> answers \<Rightarrow> request option" where
  "contract_request a img img2 as =
     (case category_of a of
        None \<Rightarrow> None
      | Some c \<Rightarrow>
          (let ps = numeric_params a; vs = take (length ps) as in
           if length vs = length ps \<and> list_all isNumeric vs
           then Some \<lparr>req_url = Some (endpoint c),
                      req_data = [(''image'', file_value img), (''algorithm'', FStr a)] @ param_fields ps vs @
                                 (if needs_second a then [(''secondImage'', file_value img2)] else [])\<rparr>
           else None))"

lemma category_of_Some: "category_of a = Some c \<Longrightarrow> a \<in> set (category_list c)"
  by (auto simp: category_of_def dest: find_Some_iff [THEN iffD1])

lemma take_one: "length (take 1 as) = 1 \<Longrightarrow> \<exists>v as'. as = v # as'"
  by (cases as) auto

lemma take_two: "length (take 2 as) = 2 \<Longrightarrow> \<exists>v w as'. as = v # w # as'"
  by (cases as; cases "tl as") auto

lemma mixed_contract:
  assumes sel: "algorithmSelected s = Some a" and mem: "a \<in> set mixedAlgorithms"
    and len: "length (take (length (numeric_params a)) as) = length (numeric_params a)"
    and num: "list_all isNumeric (take (length (numeric_params a)) as)"
  shows "snd (processMixedAlgorithms as s) =
    s\<lparr>formData := formData s @ param_fields (numeric_params a) (take (length (numeric_params a)) as),
      urlApiCall := Some endpoint_base\<rparr>"
proof -
  have plain: "?thesis" if "a \<notin> {''Rescaling'', ''Shift&Rescale'', ''Bit Plane Slicing''}"
    and "numeric_params a = []"
    using that sel by (simp add: mixed_plain param_fields_def)
  have one: "?thesis" if np: "numeric_params a = [p]"
    and step: "\<And>v as'. isNumeric v \<Longrightarrow>
       processMixedAlgorithms (v # as') s = (as', s\<lparr>formData := formData s @ [(p, FStr (the v))],
          urlApiCall := Some endpoint_base\<rparr>)" for p
  proof -
    from len np have "length (take 1 as) = 1" by simp
    then obtain v as' where as: "as = v # as'" using take_one by blast
    have "isNumeric v" using num np as by simp
    then show ?thesis using as np step by (simp add: param_fields_def)
  qed
  have "(a = ''Negative'' \<or> a = ''Salt&Pepper noise'') \<or> a = ''Rescaling'' \<or> a = ''Shift&Rescale'' \<or>
      a = ''Bit Plane Slicing''" using mem by (auto simp: mixedAlgorithms_def)
  then show ?thesis
  proof (elim disjE)
    assume h: "a = ''Negative''"
    show ?thesis by (rule plain) (use h in \<open>simp_all add: numeric_params_def transformations_def\<close>)
  next
    assume h: "a = ''Salt&Pepper noise''"
    show ?thesis by (rule plain) (use h in \<open>simp_all add: numeric_params_def transformations_def\<close>)
  next
    assume a: "a = ''Rescaling''"
    show ?thesis
      by (rule one [of "''scalingFactor''"]) (use a sel in \<open>simp_all add: numeric_params_def mixed_rescaling\<close>)
  next
    assume a: "a = ''Shift&Rescale''"
    then have np: "numeric_params a = [''scalingFactor'', ''shiftingValue'']" by (simp add: numeric_params_def)
    with len have "length (take 2 as) = 2" by simp
    then obtain v w as' where as: "as = v # w # as'" using take_two by blast
    have "isNumeric v" "isNumeric w" using num np as by simp_all
    then show ?thesis using as a sel np by (simp add: mixed_shift_rescale param_fields_def)
  next
    assume a: "a = ''Bit Plane Slicing''"
    show ?thesis
      by (rule one [of "''nBit''"]) (use a sel in \<open>simp_all add: numeric_params_def mixed_bit_plane\<close>)
  qed
qed

lemma mixed_url:
  "urlApiCall (snd (processMixedAlgorithms as s)) \<in> {urlApiCall s, Some endpoint_base}"
proof -
  consider "algorithmSelected s = Some ''Rescaling''" | "algorithmSelected s = Some ''Shift&Rescale''"
    | "algorithmSelected s = Some ''Bit Plane Slicing''"
    | "algorithmSelected s \<notin> {Some ''Rescaling'', Some ''Shift&Rescale'', Some ''Bit Plane Slicing''}"
    by blast
  then show ?thesis
  proof cases
    case 4
    then show ?thesis by (simp add: processMixedAlgorithms_def)
  qed (cases as; cases "tl as";
       simp add: processMixedAlgorithms_def ask_number_def prompt_def form_append_def alert_def)+
qed

text \<open>A helper leaves the URL as it was or sets its category's endpoint.\<close>

lemma handler_url: "urlApiCall (snd (category_handler c as s)) \<in> {urlApiCall s, Some (endpoint c)}"
proof (cases c)
  case Mixed
  then show ?thesis using mixed_url [of as s] by (simp add: category_handler_def endpoint_def)
next
  case Transformation
  then show ?thesis
    by (cases as) (simp_all add: category_handler_def processTransformations_def ask_number_def prompt_def
        form_append_def alert_def endpoint_def)
qed (simp_all add: category_handler_def processArithmeticAlgorithms_def processBitOperationsAlgorithms_def
       processConvolutions_def form_append_def Let_def endpoint_def)

lemma handler_contract:
  assumes sel: "algorithmSelected s = Some a" and mem: "a \<in> set (category_list c)"
    and len: "length (take (length (numeric_params a)) as) = length (numeric_params a)"
    and num: "list_all isNumeric (take (length (numeric_params a)) as)"
  shows "snd (category_handler c as s) =
    s\<lparr>formData := formData s @ param_fields (numeric_params a) (take (length (numeric_params a)) as) @
        (if needs_second a then [(''secondImage'', file_value (file1 s))] else []),
      urlApiCall := Some (endpoint c)\<rparr>"
proof -
  have inA: "a \<in> set arithmeticOperations \<longleftrightarrow> c = Arithmetic"
    using in_category_unique [OF mem, of Arithmetic] by auto
  have inB: "a \<in> set bitOperations \<longleftrightarrow> c = Bitwise"
    using in_category_unique [OF mem, of Bitwise] by auto
  have inT: "a \<in> set transformations \<longleftrightarrow> c = Transformation"
    using in_category_unique [OF mem, of Transformation] by auto
  have nomix: "c \<noteq> Mixed \<Longrightarrow> numeric_params a = (if c = Transformation then [''param''] else [])"
    using in_category_unique [OF mem, of Mixed] inT by (auto simp: numeric_params_def mixedAlgorithms_def)
  show ?thesis
  proof (cases c)
    case Mixed
    have "\<not> needs_second a" using inA inB Mixed by (simp add: needs_second_def)
    with Mixed mem show ?thesis
      using mixed_contract [OF sel _ len num] by (simp add: category_handler_def endpoint_def)
  next
    case Arithmetic
    with inA inB nomix show ?thesis
      by (simp add: category_handler_def processArithmeticAlgorithms_def form_append_def param_fields_def
          endpoint_def needs_second_def)
  next
    case Bitwise
    with sel inA inB nomix show ?thesis
      by (simp add: category_handler_def processBitOperationsAlgorithms_def form_append_def param_fields_def
          endpoint_def needs_second_def Let_def)
  next
    case Convolution
    with inA inB nomix show ?thesis
      by (simp add: category_handler_def processConvolutions_def param_fields_def endpoint_def needs_second_def)
  next
    case Transformation
    with nomix have np: "numeric_params a = [''param'']" by simp
    from len np have "length (take 1 as) = 1" by simp
    then obtain v as' where as: "as = v # as'" using take_one by blast
    with num np have "isNumeric v" by simp
    with as Transformation np inA inB show ?thesis
      by (simp add: category_handler_def transformations_accepted param_fields_def endpoint_def needs_second_def)
  qed
qed
subsection \<open>Rejected answers\<close>

text \<open>
  Where the contract rejects the answers, the helper of the algorithm's category
  appends the answers accepted before the rejected one and alerts.
\<close>

lemma category_of_member:
  assumes mem: "a \<in> set (category_list c)"
  shows "category_of a = Some c"
  using in_category_unique [OF mem]
  by (cases c) (simp_all add: category_of_def categories_def del: category_list.simps)

lemma all_algorithms_category: "a \<in> set all_algorithms \<Longrightarrow> \<exists>c. a \<in> set (category_list c)"
  by (auto simp: all_algorithms_def)

lemma ask_number_rejected:
  "\<not> isNumeric (fst (prompt as)) \<Longrightarrow>
   takeWhile isNumeric as = [] \<and> ask_number f m as s = Inl (snd (prompt as), alert m s)"
  by (cases as) (simp_all add: prompt_def ask_number_def)

lemma take_one_rejected:
  "\<not> (length (take n as) = n \<and> list_all isNumeric (take n as)) \<Longrightarrow> n = 1 \<Longrightarrow>
   \<not> isNumeric (fst (prompt as))"
  by (cases as) (auto simp: prompt_def)

lemma take_two_rejected:
  "\<not> (length (take n as) = n \<and> list_all isNumeric (take n as)) \<Longrightarrow> n = 2 \<Longrightarrow>
   \<not> isNumeric (fst (prompt as)) \<or> \<not> isNumeric (fst (prompt (snd (prompt as))))"
  by (cases as; cases "tl as") (auto simp: prompt_def)

lemma mixed_rejected:
  assumes sel: "algorithmSelected s = Some a" and mem: "a \<in> set mixedAlgorithms"
    and rej: "\<not> (length (take (length (numeric_params a)) as) = length (numeric_params a) \<and>
               list_all isNumeric (take (length (numeric_params a)) as))"
  shows "\<exists>m. snd (processMixedAlgorithms as s) =
    alert m (s\<lparr>formData := formData s @ param_fields (numeric_params a) (takeWhile isNumeric as)\<rparr>)"
proof -
  have "(a = ''Negative'' \<or> a = ''Salt&Pepper noise'') \<or> a = ''Rescaling'' \<or> a = ''Shift&Rescale'' \<or>
      a = ''Bit Plane Slicing''" using mem by (auto simp: mixedAlgorithms_def)
  then show ?thesis
  proof (elim disjE)
    assume "a = ''Negative''"
    with rej show ?thesis by (simp add: numeric_params_def transformations_def)
  next
    assume "a = ''Salt&Pepper noise''"
    with rej show ?thesis by (simp add: numeric_params_def transformations_def)
  next
    assume a: "a = ''Rescaling''"
    have r: "\<not> isNumeric (fst (prompt as))" by (rule take_one_rejected [OF rej]) (simp add: a numeric_params_def)
    show ?thesis using ask_number_rejected [OF r] a sel
      by (auto simp: processMixedAlgorithms_def numeric_params_def param_fields_def)
  next
    assume a: "a = ''Bit Plane Slicing''"
    have r: "\<not> isNumeric (fst (prompt as))" by (rule take_one_rejected [OF rej]) (simp add: a numeric_params_def)
    show ?thesis using ask_number_rejected [OF r] a sel
      by (auto simp: processMixedAlgorithms_def numeric_params_def param_fields_def)
  next
    assume a: "a = ''Shift&Rescale''"
    have r: "\<not> isNumeric (fst (prompt as)) \<or> \<not> isNumeric (fst (prompt (snd (prompt as))))"
      by (rule take_two_rejected [OF rej]) (simp add: a numeric_params_def)
    show ?thesis
    proof (cases "isNumeric (fst (prompt as))")
      case False
      then show ?thesis using ask_number_rejected [OF False] a sel
        by (auto simp: processMixedAlgorithms_def numeric_params_def param_fields_def)
    next
      case True
      with r have r2: "\<not> isNumeric (fst (prompt (snd (prompt as))))" by simp
      obtain v as' where p: "as = v # as'" using True by (cases as) (simp_all add: prompt_def)
      have pv: "prompt as = (v, as')" by (simp add: p prompt_def)
      from True r2 pv have "isNumeric v" "\<not> isNumeric (fst (prompt as'))" by simp_all
      then show ?thesis using ask_number_rejected [of as'] a sel p pv
        by (auto simp: processMixedAlgorithms_def numeric_params_def param_fields_def
            ask_number_def form_append_def)
    qed
  qed
qed

lemma handler_rejected:
  assumes sel: "algorithmSelected s = Some a" and mem: "a \<in> set (category_list c)"
    and rej: "\<not> (length (take (length (numeric_params a)) as) = length (numeric_params a) \<and>
               list_all isNumeric (take (length (numeric_params a)) as))"
  shows "\<exists>m. snd (category_handler c as s) =
    alert m (s\<lparr>formData := formData s @ param_fields (numeric_params a) (takeWhile isNumeric as)\<rparr>)"
proof -
  have inT: "a \<in> set transformations \<longleftrightarrow> c = Transformation"
    using in_category_unique [OF mem, of Transformation] by auto
  have nomix: "c \<noteq> Mixed \<Longrightarrow> numeric_params a = (if c = Transformation then [''param''] else [])"
    using in_category_unique [OF mem, of Mixed] inT by (auto simp: numeric_params_def mixedAlgorithms_def)
  show ?thesis
  proof (cases c)
    case Mixed
    then show ?thesis using mixed_rejected [OF sel _ rej] mem by (simp add: category_handler_def)
  next
    case Transformation
    with nomix have np: "numeric_params a = [''param'']" by simp
    have r: "\<not> isNumeric (fst (prompt as))" by (rule take_one_rejected [OF rej]) (simp add: np)
    show ?thesis using ask_number_rejected [OF r] Transformation np
      by (auto simp: category_handler_def processTransformations_def param_fields_def)
  qed (use nomix rej in simp_all)
qed

subsection \<open>A click against the contract\<close>

lemma idle_click_request:
  assumes inv: "ctrl_inv s" and en: "\<not> process_disabled s" and idle: "requests s = []"
    and sel: "algorithmSelected s = Some a" and mem: "a \<in> set (category_list c)"
    and len: "length (take (length (numeric_params a)) as) = length (numeric_params a)"
    and num: "list_all isNumeric (take (length (numeric_params a)) as)"
  shows "requests (step s (ClickProcess as)) =
    [\<lparr>req_url = Some (endpoint c),
      req_data = [(''image'', file_value (file0 s)), (''algorithm'', FStr a)] @
        param_fields (numeric_params a) (take (length (numeric_params a)) as) @
        (if needs_second a then [(''secondImage'', file_value (file1 s))] else [])\<rparr>]"
proof -
  let ?s2 = "form_append ''algorithm'' (FStr a) (form_append ''image'' (file_value (file0 s)) s)"
  have fd: "formData s = []" using inv idle by (simp add: ctrl_inv_def)
  have sel2: "algorithmSelected ?s2 = Some a" using sel by (simp add: form_append_def)
  have "step s (ClickProcess as) = send_request (snd (category_handler c as ?s2))"
    using en click_dispatch [OF sel mem] by simp
  also have "snd (category_handler c as ?s2) =
      ?s2\<lparr>formData := formData ?s2 @ param_fields (numeric_params a) (take (length (numeric_params a)) as) @
        (if needs_second a then [(''secondImage'', file_value (file1 ?s2))] else []),
      urlApiCall := Some (endpoint c)\<rparr>"
    by (rule handler_contract [OF sel2 mem len num])
  finally show ?thesis using fd idle by (simp add: send_request_def form_append_def)
qed

lemma contract_request_Some:
  assumes "contract_request a img img2 as = Some r"
  obtains c where "category_of a = Some c"
    and "length (take (length (numeric_params a)) as) = length (numeric_params a)"
    and "list_all isNumeric (take (length (numeric_params a)) as)"
    and "r = \<lparr>req_url = Some (endpoint c),
      req_data = [(''image'', file_value img), (''algorithm'', FStr a)] @
        param_fields (numeric_params a) (take (length (numeric_params a)) as) @
        (if needs_second a then [(''secondImage'', file_value img2)] else [])\<rparr>"
  using assms by (auto simp: contract_request_def Let_def split: option.splits if_splits)

lemma category_of_shift_rescale: "category_of ''Shift&Rescale'' = Some Mixed"
  by (simp add: category_of_def categories_def mixedAlgorithms_def)

text \<open>
  C1: From a reachable idle state with the process button enabled and an algorithm
  selected, a click sends exactly the request that the endpoint contract prescribes
  whenever the contract accepts the answers: the category's endpoint URL and the fields
  image, algorithm, the numeric parameters in order and, for two-image algorithms,
  secondImage.
\<close>

theorem click_refines_contract:
  assumes "reachable s" and "\<not> process_disabled s" and "requests s = []"
    and "algorithmSelected s = Some a" and "contract_request a (file0 s) (file1 s) as = Some r"
  shows "requests (step s (ClickProcess as)) = [r]"
proof -
  from assms(5) obtain c where c: "category_of a = Some c"
    and len: "length (take (length (numeric_params a)) as) = length (numeric_params a)"
    and num: "list_all isNumeric (take (length (numeric_params a)) as)"
    and r: "r = \<lparr>req_url = Some (endpoint c),
      req_data = [(''image'', file_value (file0 s)), (''algorithm'', FStr a)] @
        param_fields (numeric_params a) (take (length (numeric_params a)) as) @
        (if needs_second a then [(''secondImage'', file_value (file1 s))] else [])\<rparr>"
    by (rule contract_request_Some)
  show ?thesis
    using idle_click_request [OF reachable_inv [OF assms(1)] assms(2,3,4) category_of_Some [OF c] len num] r
    by simp
qed

lemma click_refines_contract_witness:
  "requests (step (step loaded_page (SelectAlgorithm 21)) (ClickProcess [])) =
    [\<lparr>req_url = Some ''http://localhost:8080/imageProcessing/process/convolution'',
      req_data = [(''image'', FFile photo), (''algorithm'', FStr ''Convolution - Sobel X'')]\<rparr>]"
proof -
  have a: "all_algorithms ! 21 = ''Convolution - Sobel X''" by (simp add: all_algorithms_eq catalog_defs)
  have l: "0 < (21::nat)" "21 < length all_algorithms" by (simp_all add: all_algorithms_eq catalog_defs)
  note st = loaded_select [OF l, unfolded a]
  have c: "contract_request ''Convolution - Sobel X'' (file0 (step loaded_page (SelectAlgorithm 21)))
      (file1 (step loaded_page (SelectAlgorithm 21))) [] =
    Some \<lparr>req_url = Some ''http://localhost:8080/imageProcessing/process/convolution'',
      req_data = [(''image'', FFile photo), (''algorithm'', FStr ''Convolution - Sobel X'')]\<rparr>"
    using st by (simp add: contract_request_def category_of_def categories_def catalog_defs numeric_params_def
        needs_second_def param_fields_def endpoint_def file_value_def)
  show ?thesis using click_refines_contract [OF _ _ _ _ c] st by simp
qed

text \<open>
  C8: For every catalog algorithm whose prompt answers the contract rejects (a non-
  numeric or cancelled answer for Rescaling, Shift&Rescale, Bit Plane Slicing or a
  transformation), a click on the enabled button alerts once and still sends one
  request: to the URL the state had before the click, with image, algorithm and the
  answers accepted before the rejected one, because the helper's return does not stop
  the handler.
\<close>

theorem invalid_answer_still_sent:
  assumes "\<not> process_disabled s" and "algorithmSelected s = Some a" and "a \<in> set all_algorithms"
    and "contract_request a (file0 s) (file1 s) as = None"
  shows "requests (step s (ClickProcess as)) =
      requests s @ [\<lparr>req_url = urlApiCall s,
        req_data = formData s @ [(''image'', file_value (file0 s)), (''algorithm'', FStr a)] @
          param_fields (numeric_params a) (takeWhile isNumeric as)\<rparr>] \<and>
    (\<exists>m. alerts (step s (ClickProcess as)) = alerts s @ [m])"
proof -
  obtain c where mem: "a \<in> set (category_list c)" using all_algorithms_category [OF assms(3)] ..
  let ?s2 = "form_append ''algorithm'' (FStr a) (form_append ''image'' (file_value (file0 s)) s)"
  have sel2: "algorithmSelected ?s2 = Some a" using assms(2) by (simp add: form_append_def)
  have rej: "\<not> (length (take (length (numeric_params a)) as) = length (numeric_params a) \<and>
               list_all isNumeric (take (length (numeric_params a)) as))"
    using assms(4) by (simp add: contract_request_def category_of_member [OF mem] Let_def split: if_splits)
  obtain m where h: "snd (category_handler c as ?s2) =
      alert m (?s2\<lparr>formData := formData ?s2 @ param_fields (numeric_params a) (takeWhile isNumeric as)\<rparr>)"
    using handler_rejected [OF sel2 mem rej] ..
  have "step s (ClickProcess as) = send_request (snd (category_handler c as ?s2))"
    using assms(1) click_dispatch [OF assms(2) mem] by simp
  then show ?thesis using h by (simp add: send_request_def form_append_def alert_def)
qed

lemma invalid_answer_still_sent_witness:
  "requests (step (step loaded_page (SelectAlgorithm 2)) (ClickProcess [Some ''1'', None])) =
     [\<lparr>req_url = None, req_data = [(''image'', FFile photo), (''algorithm'', FStr ''Shift&Rescale''),
        (''scalingFactor'', FStr ''1'')]\<rparr>] \<and>
   (\<exists>m. alerts (step (step loaded_page (SelectAlgorithm 2)) (ClickProcess [Some ''1'', None])) =
     alerts (step loaded_page (SelectAlgorithm 2)) @ [m])"
proof -
  let ?s = "step loaded_page (SelectAlgorithm 2)"
  have a: "all_algorithms ! 2 = ''Shift&Rescale''" by (simp add: all_algorithms_eq catalog_defs)
  have l: "0 < (2::nat)" "2 < length all_algorithms" by (simp_all add: all_algorithms_eq catalog_defs)
  note st = loaded_select [OF l, unfolded a]
  have mem: "''Shift&Rescale'' \<in> set all_algorithms" by (simp add: all_algorithms_eq catalog_defs)
  have n: "isNumeric (Some ''1'')" by code_simp
  have c: "contract_request ''Shift&Rescale'' (file0 ?s) (file1 ?s) [Some ''1'', None] = None"
    by (simp add: contract_request_def category_of_shift_rescale numeric_params_def)
  have u: "urlApiCall ?s = None" by (rule loaded_select_frame(1))
  show ?thesis using invalid_answer_still_sent [OF _ _ mem c] st u n
    by (simp add: file_value_def param_fields_def numeric_params_def)
qed

end
