(* ===== verification/Dispatch.thy ===== *)
theory Dispatch
  imports Contract
begin

text \<open>
  The click handler of lines 272--297 tests the selected algorithm against each
  of the five category arrays in turn and runs every helper whose array holds
  it.  The reference \<open>click_by_category\<close> looks the category up once
  (\<open>category_of\<close>) and runs that one helper, or none.  The two are equal on
  every state and every answer list: a helper never changes
  \<^verbatim>\<open>algorithmSelected\<close>, and the arrays are pairwise disjoint, so at most one
  test of the chain succeeds.  The same analysis bounds what one click
  sends: image and algorithm first, then at most two parameter fields, all
  names distinct.
\<close>

definition click_by_category :: "answers \<Rightarrow> state \<Rightarrow> state" where
  "click_by_category as s =
     (let s2 = form_append ''algorithm'' (str_value (algorithmSelected s))
                 (form_append ''image'' (file_value (file0 s)) s)
      in send_request
           (case algorithmSelected s of
              None \<Rightarrow> s2
            | Some a \<Rightarrow> (case category_of a of None \<Rightarrow> s2 | Some c \<Rightarrow> snd (category_handler c as s2))))"

subsection \<open>Lemmas\<close>

lemma category_of_None: "category_of a = None \<longleftrightarrow> (\<forall>c. a \<notin> set (category_list c))"
proof -
  have "\<forall>c. c \<in> set categories" by (intro allI, case_tac c) (simp_all add: categories_def)
  then show ?thesis by (auto simp: category_of_def find_None_iff)
qed

lemma click_unmatched:
  assumes "\<forall>c. index_of_opt (category_list c) (algorithmSelected s) = -1"
  shows "processImageClick as s =
    send_request (form_append ''algorithm'' (str_value (algorithmSelected s))
      (form_append ''image'' (file_value (file0 s)) s))"
proof -
  have "\<And>c. index_of_opt (category_list c) (algorithmSelected s) = -1" using assms by blast
  from this [of Mixed] this [of Arithmetic] this [of Bitwise] this [of Convolution] this [of Transformation]
  show ?thesis by (simp add: processImageClick_def form_append_def Let_def)
qed

lemma click_fields:
  "\<exists>t X. processImageClick as s = send_request t \<and> requests t = requests s \<and>
     (urlApiCall t = urlApiCall s \<or> (\<exists>c. urlApiCall t = Some (endpoint c))) \<and>
     formData t = formData s @ [(''image'', file_value (file0 s)), (''algorithm'', str_value (algorithmSelected s))] @ X \<and>
     distinct (map fst X) \<and> length X \<le> 2 \<and>
     set (map fst X) \<subseteq> {''scalingFactor'', ''shiftingValue'', ''nBit'', ''secondImage'', ''param''}"
proof -
  let ?s2 = "form_append ''algorithm'' (str_value (algorithmSelected s)) (form_append ''image'' (file_value (file0 s)) s)"
  have d2: "formData ?s2 = formData s @ [(''image'', file_value (file0 s)), (''algorithm'', str_value (algorithmSelected s))]"
    by (simp add: form_append_def)
  have unmatched: ?thesis if "\<forall>c. index_of_opt (category_list c) (algorithmSelected s) = -1"
    using click_unmatched [OF that, of as] d2 by (intro exI [of _ ?s2] exI [of _ "[]"]) (simp add: form_append_def)
  show ?thesis
  proof (cases "algorithmSelected s")
    case None
    then show ?thesis by (intro unmatched) simp
  next
    case (Some a)
    show ?thesis
    proof (cases "category_of a")
      case None
      with Some show ?thesis by (intro unmatched) (simp add: category_of_None)
    next
      case (Some c)
      from handler_fields [of c as ?s2] obtain X where
        hx: "formData (snd (category_handler c as ?s2)) = formData ?s2 @ X \<and> distinct (map fst X) \<and> length X \<le> 2 \<and>
          set (map fst X) \<subseteq> {''scalingFactor'', ''shiftingValue'', ''nBit'', ''secondImage'', ''param''}" ..
      have "processImageClick as s = send_request (snd (category_handler c as ?s2))"
        using click_dispatch [OF \<open>algorithmSelected s = Some a\<close> category_of_Some [OF Some]]
          \<open>algorithmSelected s = Some a\<close> by (simp add: str_value_def)
      moreover have "only_params ?s2 (snd (category_handler c as ?s2))" by (rule category_handler_frame)
      then have "requests (snd (category_handler c as ?s2)) = requests s"
        by (simp add: only_params_fields(4) form_append_def)
      moreover have "urlApiCall (snd (category_handler c as ?s2)) = urlApiCall s \<or>
          (\<exists>d. urlApiCall (snd (category_handler c as ?s2)) = Some (endpoint d))"
        using handler_url [of c as ?s2] by (auto simp: form_append_def)
      ultimately show ?thesis using hx d2 by (intro exI [of _ "snd (category_handler c as ?s2)"] exI [of _ X]) simp
    qed
  qed
qed

text \<open>
  C2: The click handler's chain of five membership tests (one per category array, each
  running its helper) is equal, on every state and every answer list, to the reference
  that looks up the selected algorithm's category once and runs that category's helper,
  or no helper when the algorithm is undefined or in no category.
\<close>

theorem processImageClick_equiv: "processImageClick as s = click_by_category as s"
proof (cases "algorithmSelected s")
  case None
  then show ?thesis by (simp add: click_unmatched click_by_category_def Let_def)
next
  case (Some a)
  show ?thesis
  proof (cases "category_of a")
    case None
    then have "\<forall>c. a \<notin> set (category_list c)" by (simp add: category_of_None)
    with Some None show ?thesis by (simp add: click_unmatched click_by_category_def Let_def)
  next
    case (Some c)
    with \<open>algorithmSelected s = Some a\<close> show ?thesis
      by (simp add: click_dispatch [OF _ category_of_Some] click_by_category_def Let_def str_value_def)
  qed
qed

text \<open>
  C17: From a reachable idle state, a click on the enabled process button sends exactly
  one request whose fields start with image and algorithm, have pairwise distinct names,
  and number at most four, whatever the answers to the prompts.
\<close>

theorem idle_request_well_formed:
  assumes "reachable s" and "requests s = []" and "\<not> process_disabled s"
  shows "\<exists>r. requests (step s (ClickProcess as)) = [r] \<and>
    take 2 (map fst (req_data r)) = [''image'', ''algorithm''] \<and>
    distinct (map fst (req_data r)) \<and> length (req_data r) \<le> 4"
proof -
  have fd: "formData s = []" using reachable_inv [OF assms(1)] assms(2) by (simp add: ctrl_inv_def)
  from click_fields [of as s] obtain t X where tx: "processImageClick as s = send_request t \<and>
     requests t = requests s \<and> (urlApiCall t = urlApiCall s \<or> (\<exists>c. urlApiCall t = Some (endpoint c))) \<and> formData t = formData s @ [(''image'', file_value (file0 s)), (''algorithm'', str_value (algorithmSelected s))] @ X \<and>
     distinct (map fst X) \<and> length X \<le> 2 \<and>
     set (map fst X) \<subseteq> {''scalingFactor'', ''shiftingValue'', ''nBit'', ''secondImage'', ''param''}" by blast
  then have "''image'' \<notin> set (map fst X)" "''algorithm'' \<notin> set (map fst X)" by auto
  with tx fd assms(2,3) show ?thesis by (simp add: send_request_def)
qed

lemma idle_request_well_formed_witness:
  "\<exists>r. requests (step (step loaded_page (SelectAlgorithm 2)) (ClickProcess [Some ''2'', Some ''0.5''])) = [r] \<and>
    take 2 (map fst (req_data r)) = [''image'', ''algorithm''] \<and>
    distinct (map fst (req_data r)) \<and> length (req_data r) \<le> 4"
proof -
  have l: "0 < (2::nat)" "2 < length all_algorithms" by (simp_all add: all_algorithms_eq catalog_defs)
  note st = loaded_select [OF l]
  show ?thesis using idle_request_well_formed [of "step loaded_page (SelectAlgorithm 2)"] st by blast
qed

end
