(* ===== verification/Session.thy ===== *)
theory Session
  imports Runs
begin

text \<open>
  Sessions of the controller as sequences of events: the asynchronous work a
  state has pending (file reads in \<open>readers\<close>, requests in
  \<open>requests\<close>) can always be completed, each event changes the number of
  requests in flight by at most one, and the result image shows the response
  that arrives last.  Also here: the error callback as one event, the
  completion of a first-image read (which enables the process button), and
  re-selection of the option already shown (no change event, so no effect),
  a completed second-image read (which touches no button), and the boundary
  events that change nothing: a file input closed without a file, and a
  completion that names no pending read or request.
\<close>

subsection \<open>Single events\<close>

lemma run_append [simp]: "run s (xs @ ys) = run (run s xs) ys"
  by (induction xs arbitrary: s) simp_all

lemma click_enabled: "\<not> process_disabled s \<Longrightarrow> step s (ClickProcess as) = processImageClick as s"
  by simp

lemma click_requests:
  "\<not> process_disabled s \<Longrightarrow> \<exists>r. requests (step s (ClickProcess as)) = requests s @ [r]"
  "readers (step s (ClickProcess as)) = readers s"
proof -
  obtain t where t: "only_params s t" and eq: "processImageClick as s = send_request t"
    using processImageClick_frame by blast
  show "\<not> process_disabled s \<Longrightarrow> \<exists>r. requests (step s (ClickProcess as)) = requests s @ [r]"
    using only_params_fields(4) [OF t] eq by (simp add: send_request_def)
  show "readers (step s (ClickProcess as)) = readers s"
    using only_params_fields(5) [OF t] eq by (simp add: send_request_def)
qed

lemma select_requests:
  "requests (step s (SelectAlgorithm i)) = requests s" "readers (step s (SelectAlgorithm i)) = readers s"
  by (simp_all add: algorithmSelection_def Let_def)

lemma upload_requests:
  "requests (step s (ChooseFirst v)) = requests s" "requests (step s (ChooseSecond v)) = requests s"
  by (simp_all add: uploadFirstImage_def uploadSecondImage_def Let_def split: option.split)

lemma reader_requests: "requests (step s (ReaderLoaded i)) = requests s"
  by (cases "readers s ! i"; cases "fst (readers s ! i)") auto

lemma save_requests: "requests (step s ClickSave) = requests s" "readers (step s ClickSave) = readers s"
  by (simp_all add: saveImage_def)

lemma answer_requests:
  "requests (step s (AjaxSuccess i r)) = (if i < length (requests s) then remove_nth i (requests s) else requests s)"
  "requests (step s (AjaxError i)) = (if i < length (requests s) then remove_nth i (requests s) else requests s)"
  "readers (step s (AjaxSuccess i r)) = readers s" "readers (step s (AjaxError i)) = readers s"
  by (simp_all add: ajaxSuccess_def ajaxError_def)

lemma click_frame:
  assumes "\<not> process_disabled s"
  shows "algorithmSelected (step s (ClickProcess as)) = algorithmSelected s \<and>
    file0 (step s (ClickProcess as)) = file0 s \<and> file1 (step s (ClickProcess as)) = file1 s \<and>
    original_src (step s (ClickProcess as)) = original_src s \<and>
    length (requests (step s (ClickProcess as))) = Suc (length (requests s))"
proof -
  obtain t where t: "only_params s t" and eq: "processImageClick as s = send_request t"
    using processImageClick_frame by blast
  show ?thesis using assms only_params_fields [OF t] eq by (simp add: send_request_def)
qed

lemma callback_frame:
  assumes "e = AjaxSuccess i b \<or> e = AjaxError i"
  shows "algorithmSelected (step s e) = algorithmSelected s \<and> file0 (step s e) = file0 s \<and>
    file1 (step s e) = file1 s \<and> original_src (step s e) = original_src s \<and>
    requests (step s e) = (if i < length (requests s) then remove_nth i (requests s) else requests s)"
  using assms by (auto simp: ajaxSuccess_def ajaxError_def alert_def buttonsRules_def Let_def)

lemma reader_head:
  assumes "readers s \<noteq> []"
  shows "readers (step s (ReaderLoaded 0)) = tl (readers s)"
proof -
  obtain t f where e: "readers s ! 0 = (t, f)" by fastforce
  have "step s (ReaderLoaded 0) = reader_onload t f (s\<lparr>readers := tl (readers s)\<rparr>)"
    using assms e by simp
  then show ?thesis by (cases t) simp_all
qed

subsection \<open>Draining the pending work\<close>

lemma run_readers:
  "readers (run s (replicate n (ReaderLoaded 0))) = drop n (readers s) \<and>
   requests (run s (replicate n (ReaderLoaded 0))) = requests s"
proof (induction n arbitrary: s)
  case 0
  then show ?case by simp
next
  case (Suc n)
  have h: "readers (step s (ReaderLoaded 0)) = tl (readers s)"
  proof (cases "readers s = []")
    case False
    then show ?thesis by (rule reader_head)
  qed simp
  have eq: "run s (replicate (Suc n) (ReaderLoaded 0)) = run (step s (ReaderLoaded 0)) (replicate n (ReaderLoaded 0))"
    by (simp only: replicate.simps run.simps)
  show ?case unfolding eq using Suc [of "step s (ReaderLoaded 0)"] h reader_requests [of s 0]
    by (simp add: drop_Suc del: step.simps)
qed

lemma run_successes:
  "length rs \<le> length (requests s) \<Longrightarrow>
   requests (run s (map (AjaxSuccess 0) rs)) = drop (length rs) (requests s) \<and>
   readers (run s (map (AjaxSuccess 0) rs)) = readers s \<and>
   (rs \<noteq> [] \<longrightarrow> result_src (run s (map (AjaxSuccess 0) rs)) = ''data:image/jpeg;base64,'' @ last rs)"
proof (induction rs arbitrary: s)
  case Nil
  then show ?case by simp
next
  case (Cons r rs)
  then have ne: "requests s \<noteq> []" by auto
  let ?t = "step s (AjaxSuccess 0 r)"
  have t: "requests ?t = tl (requests s)" "readers ?t = readers s"
    "result_src ?t = ''data:image/jpeg;base64,'' @ r"
    using ne by (simp_all add: answer_requests ajaxSuccess_def)
  have len: "length rs \<le> length (requests ?t)" using Cons.prems t(1) by simp
  have eq: "run s (map (AjaxSuccess 0) (r # rs)) = run ?t (map (AjaxSuccess 0) rs)"
    by (simp only: list.map run.simps)
  show ?case unfolding eq using Cons.IH [OF len] t by (cases rs) (simp_all add: drop_Suc del: step.simps)
qed

subsection \<open>The loaded session, clicked\<close>

lemma reachable_loaded_page: "reachable loaded_page"
  unfolding loaded_page_def by (rule reachable_run [OF reachable_start_blank])

lemma loaded_page_readers: "readers loaded_page = []"
  by (simp add: loaded_page_def documentReady_fields uploadFirstImage_def photo_def)

lemma loaded_click:
  "reachable (step loaded_page (ClickProcess as)) \<and> readers (step loaded_page (ClickProcess as)) = [] \<and>
   length (requests (step loaded_page (ClickProcess as))) = 1"
proof -
  obtain r where "requests (step loaded_page (ClickProcess as)) = requests loaded_page @ [r]"
    using click_requests(1) [of loaded_page as] loaded_page_fields(1) by blast
  moreover have "reachable (step loaded_page (ClickProcess as))"
    by (rule reachable.event [OF reachable_loaded_page])
  ultimately show ?thesis
    using click_requests(2) loaded_page_readers loaded_page_fields(2) by (simp del: step.simps)
qed

lemma loaded_two_clicks:
  "length (requests (run loaded_page [ClickProcess [], ClickProcess []])) = 2"
proof -
  let ?t = "step loaded_page (ClickProcess [])"
  have "\<not> process_disabled ?t"
  proof -
    obtain u where "only_params loaded_page u" "processImageClick [] loaded_page = send_request u"
      using processImageClick_frame by blast
    then show ?thesis using only_params_fields(8) loaded_page_fields(1) by (simp add: send_request_def)
  qed
  then obtain r where "requests (step ?t (ClickProcess [])) = requests ?t @ [r]"
    using click_requests(1) by blast
  then show ?thesis using loaded_click [of "[]"] by (simp del: step.simps)
qed

subsection \<open>Properties of sessions\<close>

text \<open>
  C5: From every reachable state, completing the pending file reads one by one and then
  answering each request in flight leads to a state with no pending read, no request in
  flight and empty form data, whose result image is the last response.
\<close>

theorem pending_work_completes:
  assumes "reachable s" and "length rs = length (requests s)"
  shows "readers (run s (replicate (length (readers s)) (ReaderLoaded 0) @ map (AjaxSuccess 0) rs)) = [] \<and>
    requests (run s (replicate (length (readers s)) (ReaderLoaded 0) @ map (AjaxSuccess 0) rs)) = [] \<and>
    formData (run s (replicate (length (readers s)) (ReaderLoaded 0) @ map (AjaxSuccess 0) rs)) = [] \<and>
    (rs \<noteq> [] \<longrightarrow> result_src (run s (replicate (length (readers s)) (ReaderLoaded 0) @ map (AjaxSuccess 0) rs)) =
       ''data:image/jpeg;base64,'' @ last rs)"
proof -
  let ?t1 = "run s (replicate (length (readers s)) (ReaderLoaded 0))"
  let ?t = "run ?t1 (map (AjaxSuccess 0) rs)"
  have t1: "readers ?t1 = []" "requests ?t1 = requests s" using run_readers [of s "length (readers s)"] by simp_all
  then have t: "requests ?t = []" "readers ?t = []"
    "rs \<noteq> [] \<longrightarrow> result_src ?t = ''data:image/jpeg;base64,'' @ last rs"
    using run_successes [of rs ?t1] assms(2) by simp_all
  have "reachable ?t" using assms(1) by (intro reachable_run)
  then have "formData ?t = []" using t(1) reachable_inv by (simp add: ctrl_inv_def)
  with t show ?thesis by (simp del: step.simps)
qed

lemma pending_work_completes_witness:
  "readers (run (step loaded_page (ClickProcess [])) [AjaxSuccess 0 ''/9j/abc'']) = [] \<and>
   requests (run (step loaded_page (ClickProcess [])) [AjaxSuccess 0 ''/9j/abc'']) = [] \<and>
   formData (run (step loaded_page (ClickProcess [])) [AjaxSuccess 0 ''/9j/abc'']) = [] \<and>
   result_src (run (step loaded_page (ClickProcess [])) [AjaxSuccess 0 ''/9j/abc'']) =
     ''data:image/jpeg;base64,/9j/abc''"
proof -
  note c = loaded_click [of "[]"]
  have l: "length [''/9j/abc''] = length (requests (step loaded_page (ClickProcess [])))" using c by simp
  have e: "replicate (length (readers (step loaded_page (ClickProcess [])))) (ReaderLoaded 0) @
      map (AjaxSuccess 0) [''/9j/abc''] = [AjaxSuccess 0 ''/9j/abc'']" using c by simp
  show ?thesis using pending_work_completes [OF conjunct1 [OF c] l] unfolding e by simp
qed

text \<open>
  C6: Every event changes the number of requests in flight by at most one, and the
  number grows exactly when the event is a click on the enabled process button.
\<close>

theorem requests_change_by_one:
  "length (requests (step s e)) \<le> Suc (length (requests s)) \<and>
   length (requests s) \<le> Suc (length (requests (step s e))) \<and>
   (length (requests s) < length (requests (step s e)) \<longleftrightarrow> (\<exists>as. e = ClickProcess as) \<and> \<not> process_disabled s)"
proof (cases e)
  case (ClickProcess as)
  show ?thesis
  proof (cases "process_disabled s")
    case False
    then obtain r where "requests (step s (ClickProcess as)) = requests s @ [r]" using click_requests(1) by blast
    with ClickProcess False show ?thesis by (simp del: step.simps)
  qed (use ClickProcess in simp)
qed (auto simp add: select_requests upload_requests reader_requests save_requests answer_requests
       simp del: step.simps)

text \<open>
  C18: With two requests in flight, when the response to the later request arrives first
  and the response to the earlier one last, the result image shows the earlier request's
  response: the success callback shows whatever arrives last.
\<close>

theorem last_arrival_shown:
  assumes "length (requests s) = 2"
  shows "requests (run s [AjaxSuccess 1 r2, AjaxSuccess 0 r1]) = [] \<and>
    result_src (run s [AjaxSuccess 1 r2, AjaxSuccess 0 r1]) = ''data:image/jpeg;base64,'' @ r1"
  using assms by (simp add: ajaxSuccess_def remove_nth_def)

lemma last_arrival_shown_witness:
  "requests (run (run loaded_page [ClickProcess [], ClickProcess []]) [AjaxSuccess 1 ''new'', AjaxSuccess 0 ''old'']) = [] \<and>
   result_src (run (run loaded_page [ClickProcess [], ClickProcess []]) [AjaxSuccess 1 ''new'', AjaxSuccess 0 ''old'']) =
     ''data:image/jpeg;base64,old''"
  using last_arrival_shown [OF loaded_two_clicks, of "''new''" "''old''"] by (simp del: run.simps step.simps)

text \<open>
  C22: A failed request is removed from the requests in flight, empties the shared form
  data and alerts exactly 'Error: ' (the request object passed as a second argument is
  not shown), leaving the images and the process button as they were.
\<close>

theorem ajax_error_step:
  assumes "i < length (requests s)"
  shows "requests (step s (AjaxError i)) = remove_nth i (requests s) \<and> formData (step s (AjaxError i)) = [] \<and>
    alerts (step s (AjaxError i)) = alerts s @ [''Error: ''] \<and> result_src (step s (AjaxError i)) = result_src s \<and>
    original_src (step s (AjaxError i)) = original_src s \<and> process_disabled (step s (AjaxError i)) = process_disabled s"
  using assms by (simp add: ajaxError_def)

lemma ajax_error_step_witness:
  "requests (step (step loaded_page (ClickProcess [])) (AjaxError 0)) = [] \<and>
   formData (step (step loaded_page (ClickProcess [])) (AjaxError 0)) = [] \<and>
   alerts (step (step loaded_page (ClickProcess [])) (AjaxError 0)) = alerts (step loaded_page (ClickProcess [])) @ [''Error: ''] \<and>
   result_src (step (step loaded_page (ClickProcess [])) (AjaxError 0)) = result_src (step loaded_page (ClickProcess [])) \<and>
   original_src (step (step loaded_page (ClickProcess [])) (AjaxError 0)) = original_src (step loaded_page (ClickProcess [])) \<and>
   process_disabled (step (step loaded_page (ClickProcess [])) (AjaxError 0)) =
     process_disabled (step loaded_page (ClickProcess []))"
proof -
  have l: "0 < length (requests (step loaded_page (ClickProcess [])))" using loaded_click [of "[]"] by simp
  have "remove_nth 0 (requests (step loaded_page (ClickProcess []))) = []"
    using loaded_click [of "[]"] by (simp add: remove_nth_def)
  then show ?thesis using ajax_error_step [OF l] by (simp del: step.simps)
qed


text \<open>
  C19: When the read of a first image completes, the preview shows its data URL and the
  process button becomes enabled; the read leaves the pending reads and the requests
  otherwise unchanged.
\<close>

theorem first_read_enables_process:
  assumes "i < length (readers s)" and "readers s ! i = (FirstPreview, f)"
  shows "original_src (step s (ReaderLoaded i)) = data_url f \<and> \<not> process_disabled (step s (ReaderLoaded i)) \<and>
    readers (step s (ReaderLoaded i)) = remove_nth i (readers s) \<and> requests (step s (ReaderLoaded i)) = requests s"
  using assms by (simp add: data_url_ne)

lemma first_read_enables_process_witness:
  "original_src (step (step (documentReady blank_page) (ChooseFirst (Some photo))) (ReaderLoaded 0)) = data_url photo \<and>
   \<not> process_disabled (step (step (documentReady blank_page) (ChooseFirst (Some photo))) (ReaderLoaded 0)) \<and>
   readers (step (step (documentReady blank_page) (ChooseFirst (Some photo))) (ReaderLoaded 0)) = [] \<and>
   requests (step (step (documentReady blank_page) (ChooseFirst (Some photo))) (ReaderLoaded 0)) = []"
proof -
  have r: "readers (step (documentReady blank_page) (ChooseFirst (Some photo))) = [(FirstPreview, photo)]"
    "requests (step (documentReady blank_page) (ChooseFirst (Some photo))) = []"
    by (simp_all add: uploadFirstImage_def documentReady_fields photo_def)
  have l: "0 < length (readers (step (documentReady blank_page) (ChooseFirst (Some photo))))"
    "readers (step (documentReady blank_page) (ChooseFirst (Some photo))) ! 0 = (FirstPreview, photo)"
    using r by simp_all
  show ?thesis using first_read_enables_process [OF l] r by (simp del: step.simps)
qed


text \<open>
  C23: Boundary inputs change nothing: a file input closed without a file, and a read or
  response completion that names no pending read or request, leave the state unchanged.
\<close>

theorem empty_and_stale_events:
  "step s (ChooseFirst None) = s \<and> step s (ChooseSecond None) = s \<and>
   (length (readers s) \<le> i \<longrightarrow> step s (ReaderLoaded i) = s) \<and>
   (length (requests s) \<le> j \<longrightarrow> step s (AjaxSuccess j r) = s \<and> step s (AjaxError j) = s)"
  by (simp add: uploadFirstImage_def uploadSecondImage_def)

lemma empty_and_stale_events_witness:
  "step loaded_page (ChooseFirst None) = loaded_page \<and> step loaded_page (ChooseSecond None) = loaded_page \<and>
   step loaded_page (ReaderLoaded 0) = loaded_page \<and>
   step loaded_page (AjaxSuccess 0 ''x'') = loaded_page \<and> step loaded_page (AjaxError 0) = loaded_page"
proof -
  have "length (readers loaded_page) \<le> 0" "length (requests loaded_page) \<le> 0"
    using loaded_page_readers loaded_page_fields(2) by simp_all
  then show ?thesis using empty_and_stale_events [of loaded_page 0 0 "''x''"] by (simp del: step.simps)
qed

text \<open>
  C20: When the read of a second image completes, only the second preview changes: the
  first image, the process button and the save button stay as they were, so a second
  image alone never enables processing.
\<close>

theorem second_read_keeps_buttons:
  assumes "i < length (readers s)" and "readers s ! i = (SecondPreview, f)"
  shows "original2_src (step s (ReaderLoaded i)) = data_url f \<and>
    original_src (step s (ReaderLoaded i)) = original_src s \<and>
    process_disabled (step s (ReaderLoaded i)) = process_disabled s \<and>
    save_disabled (step s (ReaderLoaded i)) = save_disabled s \<and>
    save_visible (step s (ReaderLoaded i)) = save_visible s"
  using assms by simp

lemma second_read_keeps_buttons_witness:
  "original2_src (step (step (documentReady blank_page) (ChooseSecond (Some photo))) (ReaderLoaded 0)) = data_url photo \<and>
   original_src (step (step (documentReady blank_page) (ChooseSecond (Some photo))) (ReaderLoaded 0)) = '''' \<and>
   process_disabled (step (step (documentReady blank_page) (ChooseSecond (Some photo))) (ReaderLoaded 0))"
proof -
  let ?s = "step (documentReady blank_page) (ChooseSecond (Some photo))"
  have r: "readers ?s = [(SecondPreview, photo)]" "original_src ?s = ''''" "process_disabled ?s"
    by (simp_all add: uploadSecondImage_def documentReady_fields photo_def blank_page_def)
  have l: "0 < length (readers ?s)" "readers ?s ! 0 = (SecondPreview, photo)" using r by simp_all
  show ?thesis using second_read_keeps_buttons [OF l] r by (simp del: step.simps)
qed
end
