(* ===== verification/Requests.thy ===== *)
theory Requests
  imports Dispatch Session
begin

text \<open>
  What is in flight.  Whatever the interleaving of clicks, file reads and
  responses, including a second click before the first response, every
  request sent goes to one of the five endpoints of the category table, or
  to no URL at all (a click before any helper has run), and its form data
  starts with the image and the algorithm.  \<open>req_inv\<close> adds what makes this
  inductive: the URL variable only ever holds an endpoint, and the shared
  form data, when not empty, starts with image and algorithm.
\<close>

definition url_ok :: "string option \<Rightarrow> bool" where
  "url_ok u \<longleftrightarrow> u = None \<or> (\<exists>c \<in> set categories. u = Some (endpoint c))"

definition payload_ok :: "form_data \<Rightarrow> bool" where
  "payload_ok d \<longleftrightarrow> take 2 (map fst d) = [''image'', ''algorithm'']"

definition req_inv :: "state \<Rightarrow> bool" where
  "req_inv s \<longleftrightarrow>
     url_ok (urlApiCall s) \<and> (formData s = [] \<or> payload_ok (formData s)) \<and>
     list_all (\<lambda>r. url_ok (req_url r) \<and> payload_ok (req_data r)) (requests s)"

subsection \<open>Lemmas\<close>

lemma in_categories: "c \<in> set categories"
  by (cases c) (simp_all add: categories_def)

lemma url_ok_iff: "url_ok u \<longleftrightarrow> u = None \<or> (\<exists>c. u = Some (endpoint c))"
  using in_categories by (auto simp: url_ok_def)

lemma payload_ok_append:
  assumes "payload_ok d"
  shows "payload_ok (d @ e)"
proof -
  have "length (take 2 (map fst d)) = 2" using assms by (simp add: payload_ok_def)
  then have "2 \<le> length d" by simp
  with assms show ?thesis by (simp add: payload_ok_def take_append)
qed

lemma req_inv_start: "req_inv (documentReady d)"
  by (simp add: req_inv_def documentReady_fields url_ok_def)

lemma req_inv_click:
  assumes "req_inv s"
  shows "req_inv (processImageClick as s)"
proof -
  from click_fields [of as s] obtain t X where tx: "processImageClick as s = send_request t \<and>
     requests t = requests s \<and> (urlApiCall t = urlApiCall s \<or> (\<exists>c. urlApiCall t = Some (endpoint c))) \<and>
     formData t = formData s @ [(''image'', file_value (file0 s)), (''algorithm'', str_value (algorithmSelected s))] @ X \<and>
     distinct (map fst X) \<and> length X \<le> 2 \<and>
     set (map fst X) \<subseteq> {''scalingFactor'', ''shiftingValue'', ''nBit'', ''secondImage'', ''param''}" by blast
  have u: "url_ok (urlApiCall t)" using tx assms by (auto simp: req_inv_def url_ok_iff)
  have fs: "formData s = [] \<or> payload_ok (formData s)" using assms by (simp add: req_inv_def)
  have p: "payload_ok (formData t)"
  proof (cases "formData s = []")
    case True
    with tx show ?thesis by (simp add: payload_ok_def)
  next
    case False
    with fs have "payload_ok (formData s)" by simp
    with tx show ?thesis by (simp add: payload_ok_append del: append.simps)
  qed
  show ?thesis using tx assms u p by (simp add: req_inv_def send_request_def)
qed

lemma req_inv_step: "req_inv s \<Longrightarrow> req_inv (step s e)"
proof (cases e)
  case (ClickProcess as)
  then show "req_inv s \<Longrightarrow> req_inv (step s e)" using req_inv_click by simp
next
  case (ReaderLoaded i)
  then show "req_inv s \<Longrightarrow> req_inv (step s e)"
    by (cases "readers s ! i"; cases "fst (readers s ! i)") (auto simp: req_inv_def)
next
  case (AjaxSuccess i r)
  then show "req_inv s \<Longrightarrow> req_inv (step s e)"
    using set_remove_nth [of i "requests s"] by (auto simp: req_inv_def ajaxSuccess_def list_all_iff)
next
  case (AjaxError i)
  then show "req_inv s \<Longrightarrow> req_inv (step s e)"
    using set_remove_nth [of i "requests s"] by (auto simp: req_inv_def ajaxError_def list_all_iff)
qed (auto simp: req_inv_def algorithmSelection_def Let_def uploadFirstImage_def uploadSecondImage_def
       saveImage_def split: option.split)

lemma reachable_req_inv: "reachable s \<Longrightarrow> req_inv s"
  by (induction rule: reachable.induct) (simp_all add: req_inv_start req_inv_step)

subsection \<open>Every request in flight\<close>

text \<open>
  C7: In every reachable state, whatever the interleaving of clicks, reads and responses
  (re-entrant clicks included), every request in flight is addressed to one of the five
  category endpoints or to no URL, and its form data starts with image and algorithm.
\<close>

theorem requests_well_addressed:
  "reachable s \<Longrightarrow> r \<in> set (requests s) \<Longrightarrow>
   (req_url r = None \<or> (\<exists>c. req_url r = Some (endpoint c))) \<and> take 2 (map fst (req_data r)) = [''image'', ''algorithm'']"
  using reachable_req_inv by (auto simp: req_inv_def list_all_iff url_ok_iff payload_ok_def)

lemma requests_well_addressed_witness:
  "reachable (run loaded_page [ClickProcess [], ClickProcess []]) \<and>
   requests (run loaded_page [ClickProcess [], ClickProcess []]) ! 1 \<in> set (requests (run loaded_page [ClickProcess [], ClickProcess []])) \<and>
   (req_url (requests (run loaded_page [ClickProcess [], ClickProcess []]) ! 1) = None \<or>
    (\<exists>c. req_url (requests (run loaded_page [ClickProcess [], ClickProcess []]) ! 1) = Some (endpoint c))) \<and>
   take 2 (map fst (req_data (requests (run loaded_page [ClickProcess [], ClickProcess []]) ! 1))) = [''image'', ''algorithm'']"
proof -
  have r: "reachable (run loaded_page [ClickProcess [], ClickProcess []])"
    by (rule reachable_run [OF reachable_loaded_page])
  have m: "requests (run loaded_page [ClickProcess [], ClickProcess []]) ! 1 \<in> set (requests (run loaded_page [ClickProcess [], ClickProcess []]))"
    using loaded_two_clicks by (simp del: run.simps step.simps)
  show ?thesis using r m requests_well_addressed [OF r m] by blast
qed

end
