(* ===== verification/Spec2Isabelle.thy ===== *)
theory Spec2Isabelle
  imports Requests
begin

text \<open>
  \<^bold>\<open>A verification development of the Image Processing Tool's front end.\<close>

  The repository's program under \<^verbatim>\<open>src/\<close> is one browser script,
  \<^verbatim>\<open>src/static/script.js\<close>.  It holds an algorithm catalog (five arrays of
  names and a table of Chinese display labels), three page helpers (localizing
  the select, \<^verbatim>\<open>buttonsRules\<close>, \<^verbatim>\<open>saveImage\<close>), and the
  \<^verbatim>\<open>$(document).ready\<close> closure.  The closure keeps five variables
  (\<^verbatim>\<open>formData\<close>, \<^verbatim>\<open>algorithmSelected\<close>, \<^verbatim>\<open>file\<close>,
  \<^verbatim>\<open>file1\<close>, \<^verbatim>\<open>urlApiCall\<close>) and installs the handlers of the select,
  the two file inputs and the two buttons.  The process button's handler
  appends the image and the algorithm to the form data, runs the helper of the
  algorithm's category (which prompts for numeric parameters and sets the URL),
  and posts the form to the image-processing backend.  The success and error
  callbacks of that request reset the form data.

  \<^bold>\<open>Theories.\<close>
  \<^item> \<open>Prelude\<close>: the JavaScript built-ins the script relies on, written as
    HOL functions: \<^verbatim>\<open>indexOf\<close> (\<open>index_of\<close>, \<open>-1\<close> when absent), the
    unanchored \<^verbatim>\<open>String.prototype.match\<close> of a literal (\<open>contains\<close>,
    shown equal to \<open>sublist\<close>), UTF-8 encoding of the labels, and removal
    of the \<open>i\<close>-th element of a list (a callback that has run).
  \<^item> \<open>Catalog\<close>: the arrays of lines 1--40 and \<^verbatim>\<open>algorithmLabels\<close>
    (lines 42--69) as lists and an association list, the categories as a
    datatype; the names are pairwise distinct, ASCII, and no label is a name.
  \<^item> \<open>Page\<close>: the page elements the script touches as the record
    \<open>page\<close> (select options and index, the three image sources, the two
    buttons, the second-image area, the alerts and downloads it caused), with
    \<^verbatim>\<open>buttonsRules\<close> (lines 80--92) and \<^verbatim>\<open>saveImage\<close> (lines 130--142).
  \<^item> \<open>Options\<close>: \<^verbatim>\<open>setupSelectInputField\<close> (lines 94--121) and
    \<^verbatim>\<open>translateAlgorithmOptions\<close> (lines 71--78).
  \<^item> \<open>Numeric\<close>: \<^verbatim>\<open>jQuery.isNumeric\<close>, a library function the script
    only calls, modelled from its definition (a string whose trimmed text is a
    finite JavaScript number literal).  Trimming removes ECMAScript's white
    space, Unicode included, as UTF-8 byte sequences (\<open>trim_start\<close>,
    \<open>trim_end\<close>, terminating by the length of the text).
  \<^item> \<open>Controller\<close>: the closure as the record \<open>state\<close>, an extension of
    \<open>page\<close> with the five variables, the pending file reads and the
    requests in flight.  One definition per handler and helper:
    \<open>algorithmSelection\<close>, \<open>uploadFirstImage\<close>, \<open>uploadSecondImage\<close>,
    \<open>reader_onload\<close>, the five \<^verbatim>\<open>process*\<close> helpers, \<open>processImageClick\<close>,
    \<open>ajaxSuccess\<close>, \<open>ajaxError\<close> and \<open>documentReady\<close>.  An early
    \<^verbatim>\<open>return\<close> of a helper is the left branch of the sum type \<open>flow\<close>.
    The user's answers to the prompts are an explicit list, with \<open>None\<close>
    for Cancel.  The browser's events form the datatype \<open>event\<close>, and
    \<open>step\<close> delivers one of them.  Asynchronous completions are events
    naming the pending read or request they complete, so every interleaving
    of user actions, reads and responses is a list of events.
  \<^item> \<open>Runs\<close>: the inductive set \<open>reachable\<close> of states after
    \<open>documentReady\<close> on a fresh page and any events, and the invariant
    \<open>ctrl_inv\<close>, proved by rule induction with one preservation lemma per
    event.  The consequences are the claims about all runs.
  \<^item> \<open>Contract\<close>: the submit action as the specification describes it (an
    endpoint per category, the numeric parameters of each algorithm, the
    second image for two-operand algorithms), the refinement theorem relating
    it to the click handler, and the case where the code departs from it.
  \<^item> \<open>Dispatch\<close>: the reference \<open>click_by_category\<close>, which looks the
    category up once, and the equivalence of the handler's chain of five
    \<^verbatim>\<open>indexOf\<close> tests with it.  From the same case analysis: a request
    sent from an idle state starts with image and algorithm, and has distinct
    field names and at most four fields.
  \<^item> \<open>Session\<close>: event sequences.  The pending reads and requests can
    always be completed (liveness, with the explicit completing sequence).
    Each event changes the number of requests in flight by at most one.
    Out-of-order responses, the error callback and the completion of the
    first-image and second-image reads are characterised.
  \<^item> \<open>Requests\<close>: the invariant \<open>req_inv\<close> over all interleavings.  Every
    request in flight goes to a category endpoint or to no URL, and starts
    with image and algorithm.
  \<^item> This theory: complete scenarios from the loaded page, checked on
    concrete inputs: the examples of section 8 of the specification, the
    partial and stale requests, races between file reads, a rejected second
    file, the range of accepted numbers, and a submission after a response.

  \<^bold>\<open>Results.\<close>  The save button is disabled in every reachable state, so
  no download ever starts (the enabling line 90 is commented out).  With no
  original image no request is sent.  An idle click with accepted answers sends
  exactly the request of the contract.  An invalid prompt answer does not abort
  the submission: the helper's \<^verbatim>\<open>return\<close> only leaves the helper, and a
  request with a partial payload and a stale or undefined URL is still sent,
  for every algorithm that prompts.  After the response to the only request
  in flight, success or error, the next click again sends exactly the
  contract's request.
  A click before any change of the select sends \<^verbatim>\<open>'undefined'\<close>.  Two
  clicks before a response send a second request that repeats the first
  payload.  A rejected first file still replaces the stored file.  Any type
  containing \<^verbatim>\<open>image\<close> is accepted.  The unparenthesised condition of
  line 148 implements the intended rule.  Form data is empty whenever no
  request is in flight, option values stay the canonical names, and every
  pending read is of an image.  The second file input has the same defect
  as the first: a rejected file is sent as \<^verbatim>\<open>secondImage\<close>.  Two reads
  completing out of order leave a preview that differs from the file that
  will be sent.  With two requests in flight the result shows whichever
  response arrives last.  The error callback shows only
  \<^verbatim>\<open>'Error: '\<close>.  A displayed label determines its option's value.
  An integer answer is accepted exactly when its magnitude is below the
  double overflow bound, with or without white space around it.  A padded
  answer is sent as typed.  A whole session from page load to the response
  ends with the result shown and the save button visible but disabled.

  \<^bold>\<open>Bounds.\<close>  No loop of the script is unbounded.  The only iterations
  are \<^verbatim>\<open>$.each\<close> over fixed arrays and over the options, modelled by
  \<open>map\<close> and \<open>@\<close>, so no fuel is needed.  Every recursive
  definition of the script's model (\<open>run\<close>, the number parsers,
  \<open>contains\<close>) is structural.  The one loop that is not is the white-space
  trimming of the jQuery numeric check (not script code), a \<open>function\<close>
  whose termination is proved with the length of the text as measure.  The
  asynchronous work is finite: a state has finitely many pending reads and
  requests, and \<open>Session.pending_work_completes\<close> gives the events that
  complete them all.  Numbers stay strings in the
  script, and only \<open>isNumeric\<close> reads them: a decimal literal is a
  finite double exactly when its magnitude is below
  \<open>2^1024 - 2^970\<close> (round-to-nearest overflow).

  \<^bold>\<open>Not modelled.\<close>
  \<^item> The backend and the bytes of images.  A response is an uninterpreted
    string, a file is its name, type and base64 contents, and a request is
    its URL and its ordered form fields.
  \<^item> The browser's rendering and the DOM beyond the fields of \<open>page\<close>.
    In particular \<^verbatim>\<open>$("option")\<close> is taken to be the options of the
    one select.
  \<^item> The first image's decoding failure, and FileReader errors, which the
    script does not handle.
\<close>

subsection \<open>Submitting from the loaded page\<close>

lemma loaded_select_at:
  assumes "all_algorithms ! i = a" and "0 < i" and "i < length all_algorithms"
  shows "reachable (step loaded_page (SelectAlgorithm i)) \<and>
    \<not> process_disabled (step loaded_page (SelectAlgorithm i)) \<and>
    requests (step loaded_page (SelectAlgorithm i)) = [] \<and>
    algorithmSelected (step loaded_page (SelectAlgorithm i)) = Some a \<and>
    file0 (step loaded_page (SelectAlgorithm i)) = Some photo \<and>
    file1 (step loaded_page (SelectAlgorithm i)) = None"
  using loaded_select [OF assms(2,3)] loaded_select_frame(2) [of i] assms(1) by simp

text \<open>
  C10: From a reachable idle state with Convolution - Sobel X selected and an image
  loaded, a click posts image and algorithm, and nothing else, to the convolution
  endpoint.
\<close>

theorem sobel_x_request:
  assumes "reachable s" and "\<not> process_disabled s" and "requests s = []"
    and "algorithmSelected s = Some ''Convolution - Sobel X''"
  shows "requests (step s (ClickProcess as)) =
    [\<lparr>req_url = Some ''http://localhost:8080/imageProcessing/process/convolution'',
      req_data = [(''image'', file_value (file0 s)), (''algorithm'', FStr ''Convolution - Sobel X'')]\<rparr>]"
proof -
  have mem: "''Convolution - Sobel X'' \<in> set (category_list Convolution)" by (simp add: convolutions_def)
  have np: "numeric_params ''Convolution - Sobel X'' = []" and ns: "\<not> needs_second ''Convolution - Sobel X''"
    by (simp_all add: numeric_params_def needs_second_def catalog_defs)
  show ?thesis
    using idle_click_request [OF reachable_inv [OF assms(1)] assms(2,3,4) mem] np ns
    by (simp add: endpoint_def param_fields_def)
qed

lemma sobel_x_request_witness:
  "requests (step (step loaded_page (SelectAlgorithm 21)) (ClickProcess [])) =
    [\<lparr>req_url = Some ''http://localhost:8080/imageProcessing/process/convolution'',
      req_data = [(''image'', FFile photo), (''algorithm'', FStr ''Convolution - Sobel X'')]\<rparr>]"
proof -
  have "all_algorithms ! 21 = ''Convolution - Sobel X''" "0 < (21::nat)" "21 < length all_algorithms"
    by (simp_all add: all_algorithms_eq catalog_defs)
  note st = loaded_select_at [OF this]
  show ?thesis using sobel_x_request [of _ "[]"] st by (simp add: file_value_def)
qed

text \<open>
  C13: From a reachable idle state with Shift&Rescale selected, two numeric answers give
  one request to the mixed endpoint with image, algorithm, scalingFactor and
  shiftingValue in that order, the answers sent as typed.
\<close>

theorem shift_rescale_payload:
  assumes "reachable s" and "\<not> process_disabled s" and "requests s = []"
    and "algorithmSelected s = Some ''Shift&Rescale''" and "isNumeric (Some x)" and "isNumeric (Some y)"
  shows "requests (step s (ClickProcess (Some x # Some y # as))) =
    [\<lparr>req_url = Some ''http://localhost:8080/imageProcessing/process'',
      req_data = [(''image'', file_value (file0 s)), (''algorithm'', FStr ''Shift&Rescale''),
                  (''scalingFactor'', FStr x), (''shiftingValue'', FStr y)]\<rparr>]"
proof -
  have mem: "''Shift&Rescale'' \<in> set (category_list Mixed)" by (simp add: mixedAlgorithms_def)
  have np: "numeric_params ''Shift&Rescale'' = [''scalingFactor'', ''shiftingValue'']"
    and ns: "\<not> needs_second ''Shift&Rescale''"
    by (simp_all add: numeric_params_def needs_second_def catalog_defs)
  show ?thesis
    using idle_click_request [OF reachable_inv [OF assms(1)] assms(2,3,4) mem, of "Some x # Some y # as"]
      np ns assms(5,6)
    by (simp add: endpoint_def param_fields_def)
qed

lemma shift_rescale_payload_witness:
  "requests (step (step loaded_page (SelectAlgorithm 2)) (ClickProcess [Some ''2'', Some ''-0.5''])) =
    [\<lparr>req_url = Some ''http://localhost:8080/imageProcessing/process'',
      req_data = [(''image'', FFile photo), (''algorithm'', FStr ''Shift&Rescale''),
                  (''scalingFactor'', FStr ''2''), (''shiftingValue'', FStr ''-0.5'')]\<rparr>]"
proof -
  have "all_algorithms ! 2 = ''Shift&Rescale''" "0 < (2::nat)" "2 < length all_algorithms"
    by (simp_all add: all_algorithms_eq catalog_defs)
  note st = loaded_select_at [OF this]
  have "isNumeric (Some ''2'')" "isNumeric (Some ''-0.5'')" by code_simp+
  then show ?thesis using shift_rescale_payload [of _ "''2''" "''-0.5''" "[]"] st by (simp add: file_value_def)
qed

text \<open>
  C15: A click made before any change event on the select posts the string 'undefined'
  as the algorithm to the URL the state holds (undefined on a fresh page), since no
  helper matches.
\<close>

theorem click_before_selection:
  assumes "\<not> process_disabled s" and "algorithmSelected s = None"
  shows "requests (step s (ClickProcess as)) =
    requests s @ [\<lparr>req_url = urlApiCall s,
      req_data = formData s @ [(''image'', file_value (file0 s)), (''algorithm'', FStr ''undefined'')]\<rparr>]"
  using assms by (simp add: processImageClick_def Let_def form_append_def str_value_def send_request_def)

lemma click_before_selection_witness:
  "requests (step loaded_page (ClickProcess [])) =
    [\<lparr>req_url = None, req_data = [(''image'', FFile photo), (''algorithm'', FStr ''undefined'')]\<rparr>]"
  using click_before_selection [of loaded_page "[]"] by (simp add: loaded_page_fields file_value_def)

text \<open>
  C16: Two clicks before any response send two requests, and the second request's data
  begins with all of the first request's data followed by image and algorithm again,
  because the shared form data is only reset in the callbacks.
\<close>

theorem resubmit_repeats_payload:
  assumes "\<not> process_disabled s"
  shows "\<exists>r1 r2. requests (step (step s (ClickProcess as)) (ClickProcess bs)) = requests s @ [r1, r2] \<and>
    prefix (req_data r1 @ [(''image'', file_value (file0 s)), (''algorithm'', str_value (algorithmSelected s))])
      (req_data r2)"
proof -
  obtain t1 where t1: "only_params (form_append ''algorithm'' (str_value (algorithmSelected s))
           (form_append ''image'' (file_value (file0 s)) s)) t1" and e1: "processImageClick as s = send_request t1"
    using processImageClick_sends by blast
  let ?s1 = "send_request t1"
  have s1: "algorithmSelected ?s1 = algorithmSelected s" "file0 ?s1 = file0 s"
    "process_disabled ?s1 = process_disabled s" "formData ?s1 = formData t1"
    "requests ?s1 = requests s @ [\<lparr>req_url = urlApiCall t1, req_data = formData t1\<rparr>]"
    using only_params_fields [OF t1] by (simp_all add: send_request_def form_append_def)
  obtain t2 where t2: "only_params (form_append ''algorithm'' (str_value (algorithmSelected ?s1))
           (form_append ''image'' (file_value (file0 ?s1)) ?s1)) t2" and e2: "processImageClick bs ?s1 = send_request t2"
    using processImageClick_sends by blast
  have "prefix (formData t1 @ [(''image'', file_value (file0 s)), (''algorithm'', str_value (algorithmSelected s))])
      (formData t2)"
    using only_params_fields(16) [OF t2] s1 by (simp add: form_append_def)
  moreover have "requests (send_request t2) = requests s @ [\<lparr>req_url = urlApiCall t1, req_data = formData t1\<rparr>,
      \<lparr>req_url = urlApiCall t2, req_data = formData t2\<rparr>]"
    using only_params_fields(4) [OF t2] s1 by (simp add: send_request_def form_append_def)
  ultimately show ?thesis using assms e1 e2 s1(3) by auto
qed

lemma resubmit_repeats_payload_witness:
  "\<exists>r1 r2. requests (step (step loaded_page (ClickProcess [])) (ClickProcess [])) = [r1, r2] \<and>
    prefix (req_data r1 @ [(''image'', FFile photo), (''algorithm'', FStr ''undefined'')]) (req_data r2)"
  using resubmit_repeats_payload [of loaded_page "[]" "[]"]
  by (simp add: loaded_page_fields file_value_def str_value_def)

text \<open>
  C14: For Shift&Rescale with a numeric scaling factor and an invalid shifting value,
  the click alerts and still posts image, algorithm and scalingFactor without
  shiftingValue, to the URL the state had before the click.
\<close>

theorem shifting_value_rejected_partial:
  assumes "\<not> process_disabled s" and "algorithmSelected s = Some ''Shift&Rescale''"
    and "isNumeric (Some x)" and "\<not> isNumeric w"
  shows "requests (step s (ClickProcess (Some x # w # as))) =
      requests s @ [\<lparr>req_url = urlApiCall s,
        req_data = formData s @ [(''image'', file_value (file0 s)), (''algorithm'', FStr ''Shift&Rescale''),
                                 (''scalingFactor'', FStr x)]\<rparr>] \<and>
    alerts (step s (ClickProcess (Some x # w # as))) = alerts s @ [''Insert a number for the shifting value!'']"
proof -
  let ?s2 = "form_append ''algorithm'' (FStr ''Shift&Rescale'') (form_append ''image'' (file_value (file0 s)) s)"
  have mem: "''Shift&Rescale'' \<in> set (category_list Mixed)" by (simp add: mixedAlgorithms_def)
  have sel2: "algorithmSelected ?s2 = Some ''Shift&Rescale''" using assms(2) by (simp add: form_append_def)
  have "step s (ClickProcess (Some x # w # as)) = send_request (snd (category_handler Mixed (Some x # w # as) ?s2))"
    using assms(1) click_dispatch [OF assms(2) mem] by simp
  also have "snd (category_handler Mixed (Some x # w # as) ?s2) =
      alert ''Insert a number for the shifting value!'' (?s2\<lparr>formData := formData ?s2 @ [(''scalingFactor'', FStr x)]\<rparr>)"
    using mixed_shifting_rejected [OF sel2, of "Some x" w as] assms(3,4) by (simp add: category_handler_def)
  finally show ?thesis by (simp add: send_request_def form_append_def alert_def)
qed

lemma shifting_value_rejected_partial_witness:
  "requests (step (step loaded_page (SelectAlgorithm 2)) (ClickProcess [Some ''3'', None])) =
    [\<lparr>req_url = None, req_data = [(''image'', FFile photo), (''algorithm'', FStr ''Shift&Rescale''),
                                   (''scalingFactor'', FStr ''3'')]\<rparr>]"
proof -
  have "all_algorithms ! 2 = ''Shift&Rescale''" "0 < (2::nat)" "2 < length all_algorithms"
    by (simp_all add: all_algorithms_eq catalog_defs)
  note st = loaded_select_at [OF this]
  have n: "isNumeric (Some ''3'')" "\<not> isNumeric None" by code_simp+
  have u: "urlApiCall (step loaded_page (SelectAlgorithm 2)) = None" by (rule loaded_select_frame(1))
  have fd: "formData (step loaded_page (SelectAlgorithm 2)) = []"
    using loaded_select [of 2] by (simp add: all_algorithms_eq catalog_defs)
  show ?thesis using shifting_value_rejected_partial [OF _ _ n, of _ "[]"] st u fd by (simp add: file_value_def)
qed

text \<open>
  C28: For every transformation and every integer of double range typed in decimal, the
  click posts image, algorithm and param with the typed text to the transformations
  endpoint.
\<close>

theorem transformation_integer_param:
  assumes "reachable s" and "\<not> process_disabled s" and "requests s = []"
    and "algorithmSelected s = Some a" and "a \<in> set transformations" and "\<bar>i\<bar> < 2 ^ 1024 - 2 ^ 970"
  shows "requests (step s (ClickProcess (Some (show_int i) # as))) =
    [\<lparr>req_url = Some ''http://localhost:8080/imageProcessing/process/transformations'',
      req_data = [(''image'', file_value (file0 s)), (''algorithm'', FStr a), (''param'', FStr (show_int i))]\<rparr>]"
proof -
  have mem: "a \<in> set (category_list Transformation)" using assms(5) by simp
  have np: "numeric_params a = [''param'']" and ns: "\<not> needs_second a"
    using assms(5) by (auto simp: numeric_params_def needs_second_def catalog_defs)
  show ?thesis
    using idle_click_request [OF reachable_inv [OF assms(1)] assms(2,3,4) mem, of "Some (show_int i) # as"]
      np ns isNumeric_show_int [OF assms(6)]
    by (simp add: endpoint_def param_fields_def)
qed

lemma transformation_integer_param_witness:
  "requests (step (step loaded_page (SelectAlgorithm 24)) (ClickProcess [Some (show_int (-7))])) =
    [\<lparr>req_url = Some ''http://localhost:8080/imageProcessing/process/transformations'',
      req_data = [(''image'', FFile photo), (''algorithm'', FStr ''Power Law''), (''param'', FStr (show_int (-7)))]\<rparr>]"
proof -
  have "all_algorithms ! 24 = ''Power Law''" "0 < (24::nat)" "24 < length all_algorithms"
    by (simp_all add: all_algorithms_eq catalog_defs)
  note st = loaded_select_at [OF this]
  have t: "''Power Law'' \<in> set transformations" by (simp add: transformations_def)
  have b: "\<bar>-7::int\<bar> < 2 ^ 1024 - 2 ^ 970" by simp
  show ?thesis using transformation_integer_param [OF _ _ _ _ t b, of _ "[]"] st by (simp add: file_value_def)
qed


subsection \<open>Files and reads\<close>

text \<open>
  C26: When two image files are chosen for the first input before their reads finish and
  the reads complete in the opposite order, the preview shows the first file while the
  file the next click sends is the second.
\<close>

theorem preview_differs_from_sent:
  assumes "readers s = []" and "contains ''image'' (file_type f1)" and "contains ''image'' (file_type f2)"
  shows "original_src (run s [ChooseFirst (Some f1), ChooseFirst (Some f2), ReaderLoaded 1, ReaderLoaded 0]) = data_url f1 \<and>
    file0 (run s [ChooseFirst (Some f1), ChooseFirst (Some f2), ReaderLoaded 1, ReaderLoaded 0]) = Some f2"
  using assms by (simp add: uploadFirstImage_def remove_nth_def)

lemma preview_differs_from_sent_witness:
  "original_src (run loaded_page [ChooseFirst (Some photo), ChooseFirst (Some scan), ReaderLoaded 1, ReaderLoaded 0]) =
     ''data:image/jpeg;base64,AAAA'' \<and>
   file0 (run loaded_page [ChooseFirst (Some photo), ChooseFirst (Some scan), ReaderLoaded 1, ReaderLoaded 0]) = Some scan"
proof -
  have i: "contains ''image'' (file_type photo)" "contains ''image'' (file_type scan)"
    by (simp_all add: photo_def scan_def)
  show ?thesis using preview_differs_from_sent [OF loaded_page_readers i]
    by (simp add: data_url_def photo_def del: run.simps)
qed

text \<open>
  C25: Choosing a second file that is not an image alerts and starts no read, but the
  file is already stored, so the next click with an arithmetic algorithm sends it as
  secondImage to the arithmetic endpoint.
\<close>

theorem invalid_second_file_sent:
  assumes "\<not> process_disabled s" and "algorithmSelected s = Some a" and "a \<in> set arithmeticOperations"
    and "\<not> contains ''image'' (file_type f)"
  shows "alerts (step s (ChooseSecond (Some f))) = alerts s @ [''Invalid file format. Please select an image file.''] \<and>
    readers (step s (ChooseSecond (Some f))) = readers s \<and>
    requests (step (step s (ChooseSecond (Some f))) (ClickProcess as)) =
      requests s @ [\<lparr>req_url = Some ''http://localhost:8080/imageProcessing/process/arithmeticOperations'',
        req_data = formData s @ [(''image'', file_value (file0 s)), (''algorithm'', FStr a), (''secondImage'', FFile f)]\<rparr>]"
proof -
  let ?s1 = "step s (ChooseSecond (Some f))"
  have s1: "?s1 = alert ''Invalid file format. Please select an image file.'' (s\<lparr>file1 := Some f\<rparr>)"
    using assms(4) by (simp add: uploadSecondImage_def)
  have mem: "a \<in> set (category_list Arithmetic)" using assms(3) by simp
  have sel: "algorithmSelected ?s1 = Some a" using assms(2) s1 by simp
  have "step ?s1 (ClickProcess as) = send_request (snd (category_handler Arithmetic as
      (form_append ''algorithm'' (FStr a) (form_append ''image'' (file_value (file0 ?s1)) ?s1))))"
  proof -
    have pd: "\<not> process_disabled ?s1" using assms(1) s1 by simp
    show ?thesis unfolding click_enabled [OF pd] using s1 click_dispatch [OF sel mem] by simp
  qed
  then show ?thesis using s1
    by (simp add: category_handler_def processArithmeticAlgorithms_def form_append_def send_request_def
        file_value_def del: step.simps)
qed

lemma invalid_second_file_sent_witness:
  "alerts (step (step loaded_page (SelectAlgorithm 5)) (ChooseSecond (Some pdf_doc))) =
     alerts (step loaded_page (SelectAlgorithm 5)) @ [''Invalid file format. Please select an image file.''] \<and>
   readers (step (step loaded_page (SelectAlgorithm 5)) (ChooseSecond (Some pdf_doc))) =
     readers (step loaded_page (SelectAlgorithm 5)) \<and>
   requests (step (step (step loaded_page (SelectAlgorithm 5)) (ChooseSecond (Some pdf_doc))) (ClickProcess [])) =
     [\<lparr>req_url = Some ''http://localhost:8080/imageProcessing/process/arithmeticOperations'',
       req_data = [(''image'', FFile photo), (''algorithm'', FStr ''Addition''), (''secondImage'', FFile pdf_doc)]\<rparr>]"
proof -
  have "all_algorithms ! 5 = ''Addition''" "0 < (5::nat)" "5 < length all_algorithms"
    by (simp_all add: all_algorithms_eq catalog_defs)
  note st = loaded_select_at [OF this]
  have fd: "formData (step loaded_page (SelectAlgorithm 5)) = []"
    using loaded_select [of 5] by (simp add: all_algorithms_eq catalog_defs)
  have m: "''Addition'' \<in> set arithmeticOperations" by (simp add: arithmeticOperations_def)
  have n: "\<not> contains ''image'' (file_type pdf_doc)" by (simp add: pdf_doc_def)
  show ?thesis using invalid_second_file_sent [OF _ _ m n, of _ "[]"] st fd by (simp add: file_value_def del: step.simps)
qed

subsection \<open>The range of accepted numbers\<close>

text \<open>
  C29: An integer answer for a transformation whose magnitude is at least 2^1024 - 2^970
  (it overflows to Infinity as a double) is rejected: the click alerts 'Insert a
  number!' and still sends image and algorithm without param to the previous URL.
\<close>

theorem transformation_overflow_rejected:
  assumes "\<not> process_disabled s" and "algorithmSelected s = Some a" and "a \<in> set transformations"
    and "2 ^ 1024 - 2 ^ 970 \<le> \<bar>i\<bar>"
  shows "requests (step s (ClickProcess (Some (show_int i) # as))) =
      requests s @ [\<lparr>req_url = urlApiCall s,
        req_data = formData s @ [(''image'', file_value (file0 s)), (''algorithm'', FStr a)]\<rparr>] \<and>
    alerts (step s (ClickProcess (Some (show_int i) # as))) = alerts s @ [''Insert a number!'']"
proof -
  let ?s2 = "form_append ''algorithm'' (FStr a) (form_append ''image'' (file_value (file0 s)) s)"
  have mem: "a \<in> set (category_list Transformation)" using assms(3) by simp
  have n: "\<not> isNumeric (Some (show_int i))" using assms(4) by (simp add: isNumeric_show_int_iff)
  have "step s (ClickProcess (Some (show_int i) # as)) =
      send_request (snd (category_handler Transformation (Some (show_int i) # as) ?s2))"
    using assms(1) click_dispatch [OF assms(2) mem] by simp
  then show ?thesis
    using transformations_rejected [OF n, of as ?s2]
    by (simp add: category_handler_def send_request_def form_append_def alert_def del: step.simps)
qed

lemma transformation_overflow_rejected_witness:
  "requests (step (step loaded_page (SelectAlgorithm 24)) (ClickProcess [Some (show_int (2 ^ 1024))])) =
     [\<lparr>req_url = None, req_data = [(''image'', FFile photo), (''algorithm'', FStr ''Power Law'')]\<rparr>]"
proof -
  have "all_algorithms ! 24 = ''Power Law''" "0 < (24::nat)" "24 < length all_algorithms"
    by (simp_all add: all_algorithms_eq catalog_defs)
  note st = loaded_select_at [OF this]
  have t: "''Power Law'' \<in> set transformations" by (simp add: transformations_def)
  have b: "2 ^ 1024 - 2 ^ 970 \<le> \<bar>2 ^ 1024 :: int\<bar>" by simp
  have u: "urlApiCall (step loaded_page (SelectAlgorithm 24)) = None" by (rule loaded_select_frame(1))
  have fd: "formData (step loaded_page (SelectAlgorithm 24)) = []"
    using loaded_select [of 24] by (simp add: all_algorithms_eq catalog_defs)
  show ?thesis using transformation_overflow_rejected [OF _ _ t b, of _ "[]"] st u fd
    by (simp add: file_value_def del: step.simps)
qed

text \<open>
  C30: An integer answer in double range surrounded by any ECMAScript white space
  (including the no-break and ideographic spaces, as UTF-8) passes the numeric check,
  and the click sends it as param exactly as typed, white space included.
\<close>

theorem padded_answer_sent_verbatim:
  assumes "reachable s" and "\<not> process_disabled s" and "requests s = []"
    and "algorithmSelected s = Some a" and "a \<in> set transformations" and "\<bar>i\<bar> < 2 ^ 1024 - 2 ^ 970"
    and "set ws \<subseteq> set js_space_seqs" and "set ws' \<subseteq> set js_space_seqs"
  shows "requests (step s (ClickProcess (Some (concat ws @ show_int i @ concat ws') # as))) =
    [\<lparr>req_url = Some ''http://localhost:8080/imageProcessing/process/transformations'',
      req_data = [(''image'', file_value (file0 s)), (''algorithm'', FStr a),
                  (''param'', FStr (concat ws @ show_int i @ concat ws'))]\<rparr>]"
proof -
  have mem: "a \<in> set (category_list Transformation)" using assms(5) by simp
  have np: "numeric_params a = [''param'']" and ns: "\<not> needs_second a"
    using assms(5) by (auto simp: numeric_params_def needs_second_def catalog_defs)
  have n: "isNumeric (Some (concat ws @ show_int i @ concat ws'))"
    using isNumeric_show_int_pad [OF assms(7,8), of i] assms(6) by simp
  show ?thesis
    using idle_click_request [OF reachable_inv [OF assms(1)] assms(2,3,4) mem,
        of "Some (concat ws @ show_int i @ concat ws') # as"] np ns n
    by (simp add: endpoint_def param_fields_def)
qed

lemma padded_answer_sent_verbatim_witness:
  "requests (step (step loaded_page (SelectAlgorithm 24))
      (ClickProcess [Some (utf8_char 0x3000 @ show_int 5 @ utf8_char 0xA)])) =
    [\<lparr>req_url = Some ''http://localhost:8080/imageProcessing/process/transformations'',
      req_data = [(''image'', FFile photo), (''algorithm'', FStr ''Power Law''),
                  (''param'', FStr (utf8_char 0x3000 @ show_int 5 @ utf8_char 0xA))]\<rparr>]"
proof -
  have "all_algorithms ! 24 = ''Power Law''" "0 < (24::nat)" "24 < length all_algorithms"
    by (simp_all add: all_algorithms_eq catalog_defs)
  note st = loaded_select_at [OF this]
  have t: "''Power Law'' \<in> set transformations" by (simp add: transformations_def)
  have b: "\<bar>5::int\<bar> < 2 ^ 1024 - 2 ^ 970" by simp
  have w: "set [utf8_char 0x3000] \<subseteq> set js_space_seqs" "set [utf8_char 0xA] \<subseteq> set js_space_seqs"
    by (simp_all add: js_space_seqs_def js_space_points_def del: utf8_char.simps)
  show ?thesis
    using padded_answer_sent_verbatim [OF _ _ _ _ t b w, of _ "[]"] st by (simp add: file_value_def del: utf8_char.simps)
qed

subsection \<open>A whole session\<close>

text \<open>
  C12: In the session that loads an image, selects Convolution - Sobel X, submits and
  receives /9j/abc, the result image becomes data:image/jpeg;base64,/9j/abc, the save
  button is shown but stays disabled so a click on it does nothing, and no request or
  form data is left.
\<close>

theorem sobel_session_end_to_end:
  "result_src (run (documentReady blank_page) [ChooseFirst (Some photo), ReaderLoaded 0, SelectAlgorithm 21,
       ClickProcess [], AjaxSuccess 0 ''/9j/abc'']) = ''data:image/jpeg;base64,/9j/abc'' \<and>
   save_visible (run (documentReady blank_page) [ChooseFirst (Some photo), ReaderLoaded 0, SelectAlgorithm 21,
       ClickProcess [], AjaxSuccess 0 ''/9j/abc'']) \<and>
   save_disabled (run (documentReady blank_page) [ChooseFirst (Some photo), ReaderLoaded 0, SelectAlgorithm 21,
       ClickProcess [], AjaxSuccess 0 ''/9j/abc'']) \<and>
   requests (run (documentReady blank_page) [ChooseFirst (Some photo), ReaderLoaded 0, SelectAlgorithm 21,
       ClickProcess [], AjaxSuccess 0 ''/9j/abc'']) = [] \<and>
   formData (run (documentReady blank_page) [ChooseFirst (Some photo), ReaderLoaded 0, SelectAlgorithm 21,
       ClickProcess [], AjaxSuccess 0 ''/9j/abc'']) = [] \<and>
   step (run (documentReady blank_page) [ChooseFirst (Some photo), ReaderLoaded 0, SelectAlgorithm 21,
       ClickProcess [], AjaxSuccess 0 ''/9j/abc'']) ClickSave =
     run (documentReady blank_page) [ChooseFirst (Some photo), ReaderLoaded 0, SelectAlgorithm 21,
       ClickProcess [], AjaxSuccess 0 ''/9j/abc'']"
proof -
  let ?s1 = "step loaded_page (SelectAlgorithm 21)"
  let ?s2 = "step ?s1 (ClickProcess [])"
  let ?t = "step ?s2 (AjaxSuccess 0 ''/9j/abc'')"
  have eq: "run (documentReady blank_page) [ChooseFirst (Some photo), ReaderLoaded 0, SelectAlgorithm 21,
       ClickProcess [], AjaxSuccess 0 ''/9j/abc''] = ?t"
    by (simp add: loaded_page_def del: step.simps)
  have "all_algorithms ! 21 = ''Convolution - Sobel X''" "0 < (21::nat)" "21 < length all_algorithms"
    by (simp_all add: all_algorithms_eq catalog_defs)
  note st = loaded_select_at [OF this]
  obtain r where r: "requests ?s2 = requests ?s1 @ [r]"
    using click_requests(1) [of ?s1 "[]"] st by blast
  have rs1: "reachable ?s1" using st by (rule conjunct1)
  have rs2: "reachable ?s2" by (rule reachable.event [OF rs1])
  have t: "?t = ajaxSuccess ''/9j/abc'' (?s2\<lparr>requests := []\<rparr>)"
    unfolding step.simps(7) using r st by (simp del: step.simps)
  have rt: "reachable ?t" by (rule reachable.event [OF rs2])
  have sd: "save_disabled ?t" using reachable_inv [OF rt] by (simp add: ctrl_inv_def)
  have "result_src ?t = ''data:image/jpeg;base64,/9j/abc'' \<and> save_visible ?t \<and> requests ?t = [] \<and> formData ?t = []"
    unfolding t by (simp add: ajaxSuccess_def)
  with sd show ?thesis unfolding eq by simp
qed

text \<open>
  C11: After the response to the only request in flight, success or error, a click with
  answers the contract accepts sends exactly the contract's request, because both
  callbacks reset the shared form data and keep the selection and the files.
\<close>

theorem click_after_last_response:
  assumes "reachable s" and "length (requests s) = 1" and "original_src s \<noteq> ''''"
    and "e = AjaxSuccess 0 b \<or> e = AjaxError 0"
    and "algorithmSelected s = Some a" and "contract_request a (file0 s) (file1 s) as = Some r"
  shows "requests (step (step s e) (ClickProcess as)) = [r]"
proof -
  let ?t = "step s e"
  have reach: "reachable ?t" using assms(1) by (rule reachable.event)
  then have inv: "ctrl_inv ?t" by (rule reachable_inv)
  note fr = callback_frame [OF assms(4)]
  have sel: "algorithmSelected ?t = Some a" using fr assms(5) by simp
  have idle: "requests ?t = []" using fr assms(2) by (cases "requests s") (simp_all add: remove_nth_def)
  have en: "\<not> process_disabled ?t" using inv fr assms(3) by (simp add: ctrl_inv_def)
  from assms(6) obtain c where c: "category_of a = Some c"
    and len: "length (take (length (numeric_params a)) as) = length (numeric_params a)"
    and num: "list_all isNumeric (take (length (numeric_params a)) as)"
    and r: "r = \<lparr>req_url = Some (endpoint c),
      req_data = [(''image'', file_value (file0 s)), (''algorithm'', FStr a)] @
        param_fields (numeric_params a) (take (length (numeric_params a)) as) @
        (if needs_second a then [(''secondImage'', file_value (file1 s))] else [])\<rparr>"
    by (rule contract_request_Some)
  show ?thesis
    using idle_click_request [OF inv en idle sel category_of_Some [OF c] len num] r fr by simp
qed

lemma click_after_last_response_witness:
  "requests (step (step (step (step loaded_page (SelectAlgorithm 21)) (ClickProcess [])) (AjaxSuccess 0 ''/9j/abc''))
      (ClickProcess [])) =
    [\<lparr>req_url = Some ''http://localhost:8080/imageProcessing/process/convolution'',
      req_data = [(''image'', FFile photo), (''algorithm'', FStr ''Convolution - Sobel X'')]\<rparr>]"
proof -
  let ?u = "step loaded_page (SelectAlgorithm 21)"
  let ?s = "step ?u (ClickProcess [])"
  have a: "all_algorithms ! 21 = ''Convolution - Sobel X''" by (simp add: all_algorithms_eq catalog_defs)
  have l: "0 < (21::nat)" "21 < length all_algorithms" by (simp_all add: all_algorithms_eq catalog_defs)
  note st = loaded_select [OF l, unfolded a]
  have en: "\<not> process_disabled ?u" using st by (simp del: step.simps)
  note cf = click_frame [OF en, of "[]"]
  have o: "original_src ?u \<noteq> ''''" using reachable_inv [of ?u] st by (simp add: ctrl_inv_def del: step.simps)
  have r: "reachable ?s" using st by (simp add: reachable.event del: step.simps)
  have c: "contract_request ''Convolution - Sobel X'' (file0 ?s) (file1 ?s) [] =
    Some \<lparr>req_url = Some ''http://localhost:8080/imageProcessing/process/convolution'',
      req_data = [(''image'', FFile photo), (''algorithm'', FStr ''Convolution - Sobel X'')]\<rparr>"
    using st cf loaded_select_frame(2) [of 21]
    by (simp add: contract_request_def category_of_def categories_def catalog_defs numeric_params_def
        needs_second_def param_fields_def endpoint_def file_value_def del: step.simps)
  show ?thesis using click_after_last_response [OF r _ _ _ _ c] cf st o by (simp del: step.simps)
qed

end
